theory Spec2Isabelle
  imports Complex_Main
begin

section \<open>JavaScript values\<close>

text \<open>
  A string is the list of its UTF-8 code units, so \<open>Buffer.from(s)\<close> is the list itself and
  \<open>Buffer.length\<close> is its length. A number is an IEEE double: a finite one is the rational
  it denotes, the three others are constructors of their own, and \<open>-0\<close> is \<open>Fin 0\<close>. An
  addition and the reading of a decimal numeral give the double nearest to the exact result
  (\<open>to_double\<close>).
\<close>

datatype number = Fin rat | PInf | NInf | NaN

subsection \<open>Rounding to a double\<close>

text \<open>The number of binary digits of a natural number.\<close>

fun bit_length :: "nat \<Rightarrow> nat" where
  "bit_length n = (if n = 0 then 0 else Suc (bit_length (n div 2)))"

declare bit_length.simps [simp del]

text \<open>The binary exponent \<open>e\<close> of a positive rational \<open>r\<close>: \<open>2^e \<le> r < 2^(e+1)\<close>.\<close>

definition exponent :: "rat \<Rightarrow> int" where
  "exponent r =
     (if 1 \<le> r then int (bit_length (nat \<lfloor>r\<rfloor>)) - 1
      else - int (bit_length (nat \<lceil>1 / r\<rceil> - 1)))"

text \<open>The nearest integer, and the even one of two integers that are equally near.\<close>

definition round_half_even :: "rat \<Rightarrow> int" where
  "round_half_even q =
     (let f = \<lfloor>q\<rfloor>; d = q - of_int f
      in if d < 1 / 2 then f else if 1 / 2 < d then f + 1 else if even f then f else f + 1)"

text \<open>The nearest multiple of the spacing of the doubles around \<open>r\<close>. A double has 53 binary
  digits, so the spacing is \<open>2^(e - 52)\<close> at exponent \<open>e\<close>; below the exponent \<open>-1022\<close> of the
  smallest normal number it stays \<open>2^(-1074)\<close>.\<close>

definition rounded :: "rat \<Rightarrow> rat" where
  "rounded r =
     of_int (round_half_even (r / 2 powi (max (exponent \<bar>r\<bar>) (- 1022) - 52)))
       * 2 powi (max (exponent \<bar>r\<bar>) (- 1022) - 52)"

text \<open>The double nearest to a rational, ties to even: an infinity when the rounded value
  reaches \<open>2^1024\<close>, that is from \<open>2^1024 - 2^970\<close> on.\<close>

definition to_double :: "rat \<Rightarrow> number" where
  "to_double r =
     (if r = 0 then Fin 0
      else if 2 powi 1024 \<le> rounded r then PInf
      else if rounded r \<le> - (2 powi 1024) then NInf
      else Fin (rounded r))"

text \<open>\<open>Number.MAX_VALUE\<close>, the largest finite double.\<close>

definition MAX_VALUE :: rat where
  "MAX_VALUE = 2 powi 1024 - 2 powi 971"

subsection \<open>Values\<close>

text \<open>The values \<open>JSON.parse\<close> can return. An object keeps its own properties in enumeration
  order, each key once. \<open>undefined\<close> is \<open>None\<close> of \<open>json option\<close>.\<close>

datatype json =
    JNull
  | JBool bool
  | JNum number
  | JStr string
  | JArr "json list"
  | JObj "(string \<times> json) list"

datatype error = SyntaxError | TypeError | RangeError

text \<open>\<open>a < b\<close> on numbers: false as soon as one side is \<open>NaN\<close>.\<close>

fun num_lt :: "number \<Rightarrow> number \<Rightarrow> bool" where
  "num_lt NaN _ = False"
| "num_lt _ NaN = False"
| "num_lt (Fin a) (Fin b) = (a < b)"
| "num_lt (Fin _) PInf = True"
| "num_lt (Fin _) NInf = False"
| "num_lt PInf _ = False"
| "num_lt NInf NInf = False"
| "num_lt NInf _ = True"

text \<open>\<open>a + b\<close> on numbers: the double nearest to the sum of two finite ones.\<close>

fun num_add :: "number \<Rightarrow> number \<Rightarrow> number" where
  "num_add NaN _ = NaN"
| "num_add _ NaN = NaN"
| "num_add (Fin a) (Fin b) = to_double (a + b)"
| "num_add PInf NInf = NaN"
| "num_add NInf PInf = NaN"
| "num_add PInf _ = PInf"
| "num_add NInf _ = NInf"
| "num_add _ PInf = PInf"
| "num_add _ NInf = NInf"

text \<open>\<open>Math.max\<close> of two numbers, and of a list of them: \<open>NaN\<close> as soon as one argument is
  \<open>NaN\<close>, and \<open>-Infinity\<close> without arguments.\<close>

fun num_max :: "number \<Rightarrow> number \<Rightarrow> number" where
  "num_max NaN _ = NaN"
| "num_max _ NaN = NaN"
| "num_max a b = (if num_lt a b then b else a)"

definition math_max :: "number list \<Rightarrow> number" where
  "math_max vs = fold num_max vs NInf"

text \<open>\<open>value.prop\<close> on a value that is neither \<open>null\<close> nor \<open>undefined\<close>: the own property of
  an object, \<open>undefined\<close> on arrays and primitives (none of the property names the program
  reads is defined on a prototype).\<close>

fun get_prop :: "json \<Rightarrow> string \<Rightarrow> json option" where
  "get_prop (JObj kvs) k = map_of kvs k"
| "get_prop _ k = None"

text \<open>The library functions the program calls, and the environment variable it reads.\<close>

record platform =
  JSON_parse :: "string \<Rightarrow> json option"
    \<comment> \<open>\<open>JSON.parse\<close>; \<open>None\<close> when it throws \<open>SyntaxError\<close>\<close>
  JSON_stringify :: "json \<Rightarrow> string"
  Number_toString :: "number \<Rightarrow> string"
    \<comment> \<open>\<open>String(n)\<close> of a number\<close>
  hmac_sha256 :: "string \<Rightarrow> string \<Rightarrow> string"
    \<comment> \<open>key, message, raw digest of \<open>crypto.createHmac("sha256", key).update(message)\<close>\<close>
  base64url_to_utf8 :: "string \<Rightarrow> string"
    \<comment> \<open>\<open>Buffer.from(s, "base64url").toString("utf8")\<close>, which never throws\<close>
  AUTH_SECRET :: "string option"
    \<comment> \<open>\<open>process.env.AUTH_SECRET\<close>\<close>

section \<open>Session tokens (src/lib/auth.ts)\<close>

subsection \<open>The base64url encoding of a buffer\<close>

definition b64_alphabet :: string where
  "b64_alphabet = ''ABCDEFGHIJKLMNOPQRSTUVWXYZabcdefghijklmnopqrstuvwxyz0123456789-_''"

definition b64_char :: "nat \<Rightarrow> char" where
  "b64_char n = b64_alphabet ! (n mod 64)"

text \<open>\<open>buf.toString("base64url")\<close>: three bytes give four characters, and the last one or two
  bytes give two or three, without padding.\<close>

fun base64url :: "string \<Rightarrow> string" where
  "base64url (a # b # c # rest) =
     (let x = (of_char a :: nat); y = (of_char b :: nat); z = (of_char c :: nat)
      in b64_char (x div 4) # b64_char ((x mod 4) * 16 + y div 16)
         # b64_char ((y mod 16) * 4 + z div 64) # b64_char (z mod 64) # base64url rest)"
| "base64url [a, b] =
     (let x = (of_char a :: nat); y = (of_char b :: nat)
      in [b64_char (x div 4), b64_char ((x mod 4) * 16 + y div 16), b64_char ((y mod 16) * 4)])"
| "base64url [a] =
     (let x = (of_char a :: nat) in [b64_char (x div 4), b64_char ((x mod 4) * 16)])"
| "base64url [] = []"

text \<open>The inverse on the alphabet, used to show that the encoding loses nothing.\<close>

definition b64_index :: "char \<Rightarrow> nat" where
  "b64_index c =
     (let n = (of_char c :: nat)
      in if 65 \<le> n \<and> n \<le> 90 then n - 65
         else if 97 \<le> n \<and> n \<le> 122 then n - 71
         else if 48 \<le> n \<and> n \<le> 57 then n + 4
         else if n = 45 then 62
         else 63)"

fun unbase64url :: "string \<Rightarrow> string" where
  "unbase64url (p # q # r # s # rest) =
     (let i = b64_index p; j = b64_index q; k = b64_index r; l = b64_index s
      in char_of (i * 4 + j div 16) # char_of ((j mod 16) * 16 + k div 4)
         # char_of ((k mod 4) * 64 + l) # unbase64url rest)"
| "unbase64url [p, q, r] =
     (let i = b64_index p; j = b64_index q; k = b64_index r
      in [char_of (i * 4 + j div 16), char_of ((j mod 16) * 16 + k div 4)])"
| "unbase64url [p, q] =
     (let i = b64_index p; j = b64_index q in [char_of (i * 4 + j div 16)])"
| "unbase64url _ = []"

subsection \<open>Issuing and verifying\<close>

text \<open>\<open>HEADER_B64\<close>: the encoding of \<open>JSON.stringify({ alg: "HS256", typ: "JWT" })\<close>.\<close>

definition HEADER_B64 :: string where
  \<open>HEADER_B64 = base64url ''{"alg":"HS256","typ":"JWT"}''\<close>

definition getSecret :: "platform \<Rightarrow> string" where
  "getSecret P =
     (case AUTH_SECRET P of
        None \<Rightarrow> ''dev-secret-key''
      | Some s \<Rightarrow> if s = [] then ''dev-secret-key'' else s)"

text \<open>\<open>crypto.createHmac("sha256", getSecret()).update(msg).digest("base64url")\<close>.\<close>

definition hmac_digest :: "platform \<Rightarrow> string \<Rightarrow> string" where
  "hmac_digest P msg = base64url (hmac_sha256 P (getSecret P) msg)"

text \<open>The object \<open>{ userId, username, exp }\<close>.\<close>

definition token_payload :: "number \<Rightarrow> string \<Rightarrow> number \<Rightarrow> json" where
  "token_payload userId username expires =
     JObj [(''userId'', JNum userId), (''username'', JStr username), (''exp'', JNum expires)]"

text \<open>\<open>signAuthToken\<close>; \<open>now\<close> is what \<open>Date.now()\<close> returns, \<open>ttlMs\<close> is \<open>None\<close> when the
  caller leaves it out.\<close>

definition signAuthToken :: "platform \<Rightarrow> int \<Rightarrow> number \<Rightarrow> string \<Rightarrow> number option \<Rightarrow> string" where
  "signAuthToken P now userId username ttlMs =
     (let expires = num_add (Fin (of_int now))
                  (case ttlMs of None \<Rightarrow> Fin (24 * 60 * 60 * 1000) | Some t \<Rightarrow> t);
          body = base64url (JSON_stringify P (token_payload userId username expires));
          signature = hmac_digest P (HEADER_B64 @ ''.'' @ body)
      in HEADER_B64 @ ''.'' @ body @ ''.'' @ signature)"

text \<open>\<open>s.split(".")\<close>, for any separator character.\<close>

fun split_on :: "char \<Rightarrow> string \<Rightarrow> string list" where
  "split_on d [] = [[]]"
| "split_on d (c # cs) =
     (if c = d then [] # split_on d cs
      else (case split_on d cs of p # ps \<Rightarrow> (c # p) # ps | [] \<Rightarrow> [[c]]))"

text \<open>Node's \<open>crypto.timingSafeEqual\<close> throws \<open>RangeError\<close> on buffers of different
  lengths.\<close>

definition crypto_timingSafeEqual :: "string \<Rightarrow> string \<Rightarrow> error + bool" where
  "crypto_timingSafeEqual aBuf bBuf =
     (if length aBuf \<noteq> length bBuf then Inl RangeError else Inr (aBuf = bBuf))"

definition timingSafeEqual :: "string \<Rightarrow> string \<Rightarrow> error + bool" where
  "timingSafeEqual a b =
     (let aBuf = a; bBuf = b
      in if length aBuf \<noteq> length bBuf then Inr False else crypto_timingSafeEqual aBuf bBuf)"

text \<open>The body of the \<open>try\<close> block of \<open>verifyAuthToken\<close>: \<open>JSON.parse\<close> may throw, and so does
  reading \<open>.exp\<close> of \<open>null\<close>.\<close>

definition verify_body :: "platform \<Rightarrow> int \<Rightarrow> string \<Rightarrow> error + json option" where
  "verify_body P now body =
     (case JSON_parse P (base64url_to_utf8 P body) of
        None \<Rightarrow> Inl SyntaxError
      | Some JNull \<Rightarrow> Inl TypeError
      | Some payload \<Rightarrow>
          (case get_prop payload ''exp'' of
             Some (JNum expires) \<Rightarrow>
               if num_lt expires (Fin (of_int now)) then Inr None else Inr (Some payload)
           | _ \<Rightarrow> Inr None))"

text \<open>\<open>verifyAuthToken\<close>: \<open>None\<close> is the \<open>null\<close> it returns, \<open>Inl\<close> an exception that leaves
  it. The token is \<open>None\<close> for \<open>null\<close> and \<open>undefined\<close>.\<close>

definition verifyAuthToken :: "platform \<Rightarrow> int \<Rightarrow> string option \<Rightarrow> error + json option" where
  "verifyAuthToken P now token =
     (case token of
        None \<Rightarrow> Inr None
      | Some t \<Rightarrow>
          if t = [] then Inr None
          else (case split_on CHR ''.'' t of
                  [header, body, signature] \<Rightarrow>
                    if header \<noteq> HEADER_B64 then Inr None
                    else (case timingSafeEqual (hmac_digest P (header @ ''.'' @ body)) signature of
                            Inl e \<Rightarrow> Inl e
                          | Inr False \<Rightarrow> Inr None
                          | Inr True \<Rightarrow>
                              (case verify_body P now body of
                                 Inl e \<Rightarrow> Inr None
                               | Inr r \<Rightarrow> Inr r))
                | _ \<Rightarrow> Inr None))"

section \<open>Router monitoring (src/app/(protected)/page.tsx)\<close>

subsection \<open>Strings\<close>

text \<open>The code points \<open>String.prototype.trim\<close> removes (WhiteSpace and LineTerminator of
  ECMAScript), each as its UTF-8 code units.\<close>

definition white_space :: "string list" where
  "white_space =
     [[CHR 0x09], [CHR 0x0A], [CHR 0x0B], [CHR 0x0C], [CHR 0x0D], [CHR 0x20],
      [CHR 0xC2, CHR 0xA0], [CHR 0xE1, CHR 0x9A, CHR 0x80],
      [CHR 0xE2, CHR 0x80, CHR 0x80], [CHR 0xE2, CHR 0x80, CHR 0x81],
      [CHR 0xE2, CHR 0x80, CHR 0x82], [CHR 0xE2, CHR 0x80, CHR 0x83],
      [CHR 0xE2, CHR 0x80, CHR 0x84], [CHR 0xE2, CHR 0x80, CHR 0x85],
      [CHR 0xE2, CHR 0x80, CHR 0x86], [CHR 0xE2, CHR 0x80, CHR 0x87],
      [CHR 0xE2, CHR 0x80, CHR 0x88], [CHR 0xE2, CHR 0x80, CHR 0x89],
      [CHR 0xE2, CHR 0x80, CHR 0x8A], [CHR 0xE2, CHR 0x80, CHR 0xA8],
      [CHR 0xE2, CHR 0x80, CHR 0xA9], [CHR 0xE2, CHR 0x80, CHR 0xAF],
      [CHR 0xE2, CHR 0x81, CHR 0x9F], [CHR 0xE3, CHR 0x80, CHR 0x80],
      [CHR 0xEF, CHR 0xBB, CHR 0xBF]]"

fun strip_prefix_of :: "string list \<Rightarrow> string \<Rightarrow> string option" where
  "strip_prefix_of [] s = None"
| "strip_prefix_of (w # ws) s =
     (if w \<noteq> [] \<and> take (length w) s = w then Some (drop (length w) s)
      else strip_prefix_of ws s)"

function strip_leading :: "string list \<Rightarrow> string \<Rightarrow> string" where
  "strip_leading ws s =
     (case strip_prefix_of ws s of None \<Rightarrow> s | Some r \<Rightarrow> strip_leading ws r)"
  by pat_completeness auto
termination
proof (relation "measure (\<lambda>(ws, s). length s)")
  show "wf (measure (\<lambda>(ws, s). length s))" by simp
next
  fix ws :: "string list" and s r :: string
  assume "strip_prefix_of ws s = Some r"
  then have "length r < length s"
  proof (induction ws)
    case Nil
    then show ?case by simp
  next
    case (Cons w ws)
    show ?case
    proof (cases "w \<noteq> [] \<and> take (length w) s = w")
      case True
      with Cons.prems have r: "r = drop (length w) s" by simp
      from True have "length w \<le> length s"
        by (metis length_take min.cobounded1)
      with True r show ?thesis by (cases w) auto
    next
      case False
      with Cons show ?thesis by auto
    qed
  qed
  then show "((ws, r), (ws, s)) \<in> measure (\<lambda>(ws, s). length s)" by simp
qed

definition trim :: "string \<Rightarrow> string" where
  "trim s = rev (strip_leading (map rev white_space) (rev (strip_leading white_space s)))"

text \<open>\<open>toLowerCase\<close> on the letters A to Z. The program compares the result with
  \<open>"delta"\<close> and \<open>"full"\<close> only, and no other code point lowers to one of their letters.\<close>

definition toLowerCase :: "string \<Rightarrow> string" where
  "toLowerCase s =
     map (\<lambda>c. let n = (of_char c :: nat) in if 65 \<le> n \<and> n \<le> 90 then char_of (n + 32) else c) s"

definition is_digit :: "char \<Rightarrow> bool" where
  "is_digit c = (48 \<le> (of_char c :: nat) \<and> (of_char c :: nat) \<le> 57)"

text \<open>The decimal digits of an array index, as a template literal prints it.\<close>

fun show_nat :: "nat \<Rightarrow> string" where
  "show_nat n =
     (if n < 10 then [''0123456789'' ! n] else show_nat (n div 10) @ [''0123456789'' ! (n mod 10)])"

text \<open>\<open>s.split(/\r?\n/)\<close>.\<close>

fun split_lines :: "string \<Rightarrow> string list" where
  "split_lines [] = [[]]"
| "split_lines (c # cs) =
     (if c = CHR 0x0A then [] # split_lines cs
      else if c = CHR 0x0D \<and> take 1 cs = [CHR 0x0A] then [] # split_lines (drop 1 cs)
      else (case split_lines cs of p # ps \<Rightarrow> (c # p) # ps | [] \<Rightarrow> [[c]]))"

subsection \<open>Numbers in strings\<close>

text \<open>The first match of \<open>/-?\d+(\.\d+)?/\<close>: \<open>match_number_at\<close> is the match that starts at
  the head of the string, \<open>match_number\<close> the leftmost one.\<close>

definition match_number_at :: "string \<Rightarrow> string option" where
  "match_number_at s =
     (let neg = (take 1 s = ''-'' \<and> takeWhile is_digit (drop 1 s) \<noteq> []);
          body = (if neg then drop 1 s else s);
          ds = takeWhile is_digit body;
          after = dropWhile is_digit body;
          fs = takeWhile is_digit (drop 1 after);
          frac = (if take 1 after = ''.'' \<and> fs \<noteq> [] then ''.'' @ fs else [])
      in if ds = [] then None else Some ((if neg then ''-'' else []) @ ds @ frac))"

fun match_number :: "string \<Rightarrow> string option" where
  "match_number [] = None"
| "match_number (c # cs) =
     (case match_number_at (c # cs) of Some m \<Rightarrow> Some m | None \<Rightarrow> match_number cs)"

definition digits_value :: "string \<Rightarrow> nat" where
  "digits_value ds = foldl (\<lambda>acc c. 10 * acc + ((of_char c :: nat) - 48)) 0 ds"

text \<open>The rational that a string \<open>m\<close> matched by the expression above denotes as a decimal
  numeral, and \<open>Number(m)\<close>: the double nearest to it, an infinity when the numeral is beyond
  the doubles, never \<open>NaN\<close>.\<close>

definition decimal_value :: "string \<Rightarrow> rat" where
  "decimal_value m =
     (let neg = (take 1 m = ''-'');
          body = (if neg then drop 1 m else m);
          ds = takeWhile is_digit body;
          fs = drop 1 (dropWhile is_digit body);
          v = of_nat (digits_value ds) + of_nat (digits_value fs) / 10 ^ length fs
      in if neg then - v else v)"

definition Number_of :: "string \<Rightarrow> number" where
  "Number_of m = to_double (decimal_value m)"

subsection \<open>The data model\<close>

text \<open>\<open>number | string\<close>, the type of an interface's \<open>rx\<close> and \<open>tx\<close> when they are not
  \<open>null\<close>.\<close>

datatype metric_value = MVNum number | MVStr string

text \<open>\<open>RouterInterfaceStat\<close>, \<open>RouterMetric\<close> and \<open>RouterHistoryPoint\<close>. A field that may be
  \<open>null\<close> is an option. Field names that the three types share, and \<open>id\<close>, carry a prefix
  here: \<open>iface_name\<close>, \<open>iface_status\<close> are \<open>name\<close>, \<open>status\<close> of an interface;
  \<open>router_id\<close>, \<open>router_name\<close>, \<open>router_status\<close> are \<open>id\<close>, \<open>name\<close>, \<open>status\<close> of a
  metric; \<open>point_cpu\<close>, \<open>point_memory\<close>, \<open>point_active\<close> are \<open>cpu\<close>, \<open>memory\<close>, \<open>active\<close> of
  a history point.\<close>

record RouterInterfaceStat =
  iface_name :: string
  rx :: "metric_value option"
  tx :: "metric_value option"
  iface_status :: "string option"
  rxUnit :: "string option"
  txUnit :: "string option"

record RouterMetric =
  router_id :: string
  router_name :: string
  router_status :: "string option"
  total :: "number option"
  active :: "number option"
  cpu :: "number option"
  memory :: "number option"
  interfaces :: "RouterInterfaceStat list"
  lastUpdatedAt :: int

record RouterHistoryPoint =
  timestamp :: int
  point_cpu :: "number option"
  point_memory :: "number option"
  point_active :: "number option"
  peakTraffic :: "number option"

datatype MonitoringPayload =
    Full "json list"
  | Delta "json list" "json list" "json list"

subsection \<open>Reading untyped values\<close>

text \<open>\<open>Boolean(v)\<close>.\<close>

fun truthy :: "json \<Rightarrow> bool" where
  "truthy JNull = False"
| "truthy (JBool b) = b"
| "truthy (JNum n) = (n \<noteq> Fin 0 \<and> n \<noteq> NaN)"
| "truthy (JStr s) = (s \<noteq> [])"
| "truthy (JArr _) = True"
| "truthy (JObj _) = True"

text \<open>\<open>a ?? b ?? ...\<close>: the first operand that is neither \<open>null\<close> nor \<open>undefined\<close>.\<close>

fun first_some :: "'a option list \<Rightarrow> 'a option" where
  "first_some [] = None"
| "first_some (None # xs) = first_some xs"
| "first_some (Some x # xs) = Some x"

definition non_empty :: "string \<Rightarrow> string option" where
  "non_empty s = (if length s > 0 then Some s else None)"

definition pickString :: "json option \<Rightarrow> string option" where
  "pickString v = (case v of Some (JStr s) \<Rightarrow> non_empty (trim s) | _ \<Rightarrow> None)"

definition pickIdentifier :: "platform \<Rightarrow> json option \<Rightarrow> string option" where
  "pickIdentifier P v =
     (case v of
        Some (JStr s) \<Rightarrow> non_empty (trim s)
      | Some (JNum n) \<Rightarrow> non_empty (trim (Number_toString P n))
      | _ \<Rightarrow> None)"

text \<open>\<open>pickNumber\<close>: a number that is finite, or \<open>Number\<close> of the first decimal numeral of a
  string without its commas, when that is not \<open>NaN\<close>; it may be an infinity.\<close>

definition pickNumber :: "json option \<Rightarrow> number option" where
  "pickNumber v =
     (case v of
        Some (JNum (Fin r)) \<Rightarrow> Some (Fin r)
      | Some (JStr s) \<Rightarrow>
          (let sanitized = filter (\<lambda>c. c \<noteq> CHR '','') s
           in case match_number sanitized of
                Some m \<Rightarrow>
                  (let parsed = Number_of m
                   in if parsed \<noteq> NaN then Some parsed else None)
              | None \<Rightarrow> None)
      | _ \<Rightarrow> None)"

definition pickMetricValue :: "json option \<Rightarrow> metric_value option" where
  "pickMetricValue v =
     (case pickNumber v of
        Some numeric \<Rightarrow> Some (MVNum numeric)
      | None \<Rightarrow>
          (case v of
             Some (JStr s) \<Rightarrow> map_option MVStr (non_empty (trim s))
           | _ \<Rightarrow> None))"

definition asRecord :: "json option \<Rightarrow> json option" where
  "asRecord v = (case v of Some (JObj kvs) \<Rightarrow> Some (JObj kvs) | _ \<Rightarrow> None)"

text \<open>\<open>group?.key\<close>.\<close>

definition opt_prop :: "json option \<Rightarrow> string \<Rightarrow> json option" where
  "opt_prop g k = (case g of None \<Rightarrow> None | Some r \<Rightarrow> get_prop r k)"

subsection \<open>Interfaces\<close>

definition normalizeInterfaceEntry ::
    "json \<Rightarrow> nat \<Rightarrow> string option \<Rightarrow> RouterInterfaceStat option" where
  "normalizeInterfaceEntry v index fallbackName =
     (let positional = ''Interface '' @ show_nat (index + 1)
      in case v of
           JNum n \<Rightarrow>
             Some \<lparr>iface_name = (case fallbackName of Some f \<Rightarrow> f | None \<Rightarrow> positional),
                   rx = Some (MVNum n), tx = None, iface_status = None,
                   rxUnit = None, txUnit = None\<rparr>
         | JStr s \<Rightarrow>
             Some \<lparr>iface_name = (case fallbackName of Some f \<Rightarrow> f | None \<Rightarrow> positional),
                   rx = Some (MVStr (trim s)), tx = None, iface_status = None,
                   rxUnit = None, txUnit = None\<rparr>
         | JNull \<Rightarrow>
             Some \<lparr>iface_name = (case fallbackName of Some f \<Rightarrow> f | None \<Rightarrow> positional),
                   rx = None, tx = None, iface_status = None, rxUnit = None, txUnit = None\<rparr>
         | JBool _ \<Rightarrow>
             Some \<lparr>iface_name = (case fallbackName of Some f \<Rightarrow> f | None \<Rightarrow> positional),
                   rx = None, tx = None, iface_status = None, rxUnit = None, txUnit = None\<rparr>
         | record \<Rightarrow>
             Some \<lparr>iface_name =
                     (case first_some [pickString (get_prop record ''name''),
                                       pickString (get_prop record ''interface''),
                                       pickString (get_prop record ''iface''),
                                       pickString (get_prop record ''id''),
                                       fallbackName] of
                        Some n \<Rightarrow> n | None \<Rightarrow> positional),
                   rx = first_some (map (\<lambda>k. pickMetricValue (get_prop record k))
                          [''rx'', ''rx_bps'', ''rxRate'', ''rx_rate'', ''rx_mbps'', ''rxBytes'',
                           ''rx_bytes'', ''download'', ''in'', ''receive'', ''rxTraffic'']),
                   tx = first_some (map (\<lambda>k. pickMetricValue (get_prop record k))
                          [''tx'', ''tx_bps'', ''txRate'', ''tx_rate'', ''tx_mbps'', ''txBytes'',
                           ''tx_bytes'', ''upload'', ''out'', ''transmit'', ''txTraffic'']),
                   iface_status = first_some (map (\<lambda>k. pickString (get_prop record k))
                          [''status'', ''state'', ''linkStatus'', ''interfaceStatus'']),
                   rxUnit = first_some (map (\<lambda>k. pickString (get_prop record k))
                          [''rx_unit'', ''rxUnit'', ''rxUnits'']),
                   txUnit = first_some (map (\<lambda>k. pickString (get_prop record k))
                          [''tx_unit'', ''txUnit'', ''txUnits''])\<rparr>)"

text \<open>\<open>normalizeInterfaces\<close>: \<open>None\<close> is the \<open>null\<close> it returns on a falsy value.\<close>

definition normalizeInterfaces :: "json option \<Rightarrow> RouterInterfaceStat list option" where
  "normalizeInterfaces v =
     (case v of
        None \<Rightarrow> None
      | Some x \<Rightarrow>
          if \<not> truthy x then None
          else (case x of
                  JArr entries \<Rightarrow>
                    Some (List.map_filter (\<lambda>(index, entry). normalizeInterfaceEntry entry index None)
                            (enumerate 0 entries))
                | JObj kvs \<Rightarrow>
                    Some (List.map_filter
                            (\<lambda>(index, (key, entry)). normalizeInterfaceEntry entry index (Some key))
                            (enumerate 0 kvs))
                | _ \<Rightarrow> Some []))"

subsection \<open>Router items\<close>

text \<open>\<open>normalizeRouterItem\<close>; \<open>now\<close> is what \<open>Date.now()\<close> returns.\<close>

definition normalizeRouterItem :: "platform \<Rightarrow> int \<Rightarrow> json \<Rightarrow> nat \<Rightarrow> RouterMetric option" where
  "normalizeRouterItem P now v index =
     (if \<not> truthy v then None
      else case v of
             JNum _ \<Rightarrow> None
           | JStr _ \<Rightarrow> None
           | JBool _ \<Rightarrow> None
           | JNull \<Rightarrow> None
           | record \<Rightarrow>
               (let name =
                      (case first_some [pickString (get_prop record ''name''),
                                        pickString (get_prop record ''routerName''),
                                        pickString (get_prop record ''router''),
                                        pickString (get_prop record ''identity'')] of
                         Some n \<Rightarrow> n
                       | None \<Rightarrow> ''Router '' @ show_nat (index + 1));
                    identifier =
                      (case first_some [pickIdentifier P (get_prop record ''id''),
                                        pickIdentifier P (get_prop record ''routerId''),
                                        pickIdentifier P (get_prop record ''uuid'')] of
                         Some i \<Rightarrow> i
                       | None \<Rightarrow> name)
                in if name = [] \<or> identifier = [] then None
                   else
                     (let resourceGroup = asRecord (get_prop record ''resource'');
                          pppoeGroup = asRecord (get_prop record ''pppoe'')
                      in Some
                           \<lparr>router_id = identifier,
                            router_name = name,
                            router_status =
                              first_some (map (\<lambda>k. pickString (get_prop record k))
                                [''status'', ''state'', ''health'', ''connectionStatus'']),
                            total =
                              first_some [pickNumber (get_prop record ''total''),
                                          pickNumber (get_prop record ''pppoe_total''),
                                          pickNumber (get_prop record ''pppoeTotal''),
                                          pickNumber (get_prop record ''pppoe_count''),
                                          pickNumber (opt_prop pppoeGroup ''total'')],
                            active =
                              first_some [pickNumber (get_prop record ''active''),
                                          pickNumber (get_prop record ''pppoe_active''),
                                          pickNumber (get_prop record ''pppoeActive''),
                                          pickNumber (opt_prop pppoeGroup ''active'')],
                            cpu =
                              first_some [pickNumber (get_prop record ''cpu''),
                                          pickNumber (get_prop record ''cpu_usage''),
                                          pickNumber (opt_prop resourceGroup ''cpu''),
                                          pickNumber (get_prop record ''cpuLoad''),
                                          pickNumber (get_prop record ''cpu_load'')],
                            memory =
                              first_some [pickNumber (get_prop record ''memory''),
                                          pickNumber (get_prop record ''memory_usage''),
                                          pickNumber (opt_prop resourceGroup ''memory''),
                                          pickNumber (get_prop record ''memoryLoad''),
                                          pickNumber (get_prop record ''memory_load'')],
                            interfaces =
                              (case first_some (map (\<lambda>k. normalizeInterfaces (get_prop record k))
                                      [''interfaces'', ''interface'', ''ifaces'', ''traffic'', ''stats'']) of
                                 Some l \<Rightarrow> l
                               | None \<Rightarrow> []),
                            lastUpdatedAt = now\<rparr>)))"

definition is_array :: "json option \<Rightarrow> bool" where
  "is_array v = (case v of Some (JArr _) \<Rightarrow> True | _ \<Rightarrow> False)"

definition array_items :: "json option \<Rightarrow> json list" where
  "array_items v = (case v of Some (JArr xs) \<Rightarrow> xs | _ \<Rightarrow> [])"

definition truthy_opt :: "json option \<Rightarrow> bool" where
  "truthy_opt v = (case v of None \<Rightarrow> False | Some x \<Rightarrow> truthy x)"

text \<open>The filter of \<open>extractRouterItems\<close>: a truthy object that is not an array.\<close>

definition is_nested_record :: "json \<Rightarrow> bool" where
  "is_nested_record v = (case v of JObj _ \<Rightarrow> True | _ \<Rightarrow> False)"

definition extractRouterItems :: "json option \<Rightarrow> json list" where
  "extractRouterItems payload =
     (case payload of
        None \<Rightarrow> []
      | Some p \<Rightarrow>
          if \<not> truthy p then []
          else (case p of
                  JArr xs \<Rightarrow> xs
                | JObj kvs \<Rightarrow>
                    if is_array (get_prop p ''routers'') then array_items (get_prop p ''routers'')
                    else if is_array (get_prop p ''data'') then array_items (get_prop p ''data'')
                    else if is_array (get_prop p ''items'') then array_items (get_prop p ''items'')
                    else if is_array (get_prop p ''result'') then array_items (get_prop p ''result'')
                    else if truthy_opt (get_prop p ''router'') then [the (get_prop p ''router'')]
                    else if truthy_opt (get_prop p ''device'') then [the (get_prop p ''device'')]
                    else (let nestedValues = filter is_nested_record (map snd kvs)
                          in if length nestedValues > 0 \<and> length nestedValues = length kvs
                             then nestedValues else [p])
                | _ \<Rightarrow> []))"

definition normalizeRouterPayload :: "platform \<Rightarrow> int \<Rightarrow> json option \<Rightarrow> RouterMetric list" where
  "normalizeRouterPayload P now payload =
     List.map_filter (\<lambda>(index, item). normalizeRouterItem P now item index)
       (enumerate 0 (extractRouterItems payload))"

subsection \<open>Shapes of a message\<close>

text \<open>The loop over \<open>candidates\<close> in \<open>interpretMonitoringPayload\<close>; it returns from the
  function at the first candidate that carries routers.\<close>

fun scan_candidates :: "json option list \<Rightarrow> MonitoringPayload option" where
  "scan_candidates [] = None"
| "scan_candidates (c # cs) =
     (if \<not> truthy_opt c then scan_candidates cs
      else (case c of
              Some (JArr xs) \<Rightarrow> if length xs > 0 then Some (Full xs) else scan_candidates cs
            | Some (JObj kvs) \<Rightarrow>
                if is_array (get_prop (JObj kvs) ''routers'')
                then Some (Full (array_items (get_prop (JObj kvs) ''routers'')))
                else scan_candidates cs
            | _ \<Rightarrow> scan_candidates cs))"

definition interpretMonitoringPayload :: "json \<Rightarrow> MonitoringPayload option" where
  "interpretMonitoringPayload payload =
     (case payload of
        JNull \<Rightarrow> None
      | JArr xs \<Rightarrow> Some (Full xs)
      | JObj kvs \<Rightarrow>
          (let record = JObj kvs;
               announcedType =
                 (case get_prop record ''type'' of
                    Some (JStr t) \<Rightarrow> Some (toLowerCase t)
                  | _ \<Rightarrow> None)
           in if announcedType = Some ''delta''
              then (let routersRecord = asRecord (get_prop record ''routers'')
                    in Some (Delta (array_items (opt_prop routersRecord ''added''))
                                   (array_items (opt_prop routersRecord ''updated''))
                                   (array_items (opt_prop routersRecord ''removed''))))
              else (let candidates =
                          (if announcedType = Some ''full'' then [get_prop record ''data''] else [])
                          @ [Some record]
                          @ (if truthy_opt (get_prop record ''data'')
                                \<and> is_nested_record (the (get_prop record ''data''))
                             then [get_prop record ''data''] else [])
                    in case scan_candidates candidates of
                         Some m \<Rightarrow> Some m
                       | None \<Rightarrow>
                           (let extracted = extractRouterItems (Some record)
                            in if length extracted > 0 then Some (Full extracted) else None)))
      | _ \<Rightarrow> None)"

text \<open>\<open>extractRouterIdentifiers\<close>: the \<open>Set\<close> keeps each identifier once, in the order of
  first insertion.\<close>

definition set_add :: "string \<Rightarrow> string list \<Rightarrow> string list" where
  "set_add x unique = (if x \<in> set unique then unique else unique @ [x])"

definition extractRouterIdentifiers :: "platform \<Rightarrow> json list \<Rightarrow> string list" where
  "extractRouterIdentifiers P entries =
     foldl (\<lambda>unique entry.
              case entry of
                JStr s \<Rightarrow> (let trimmed = trim s in if trimmed \<noteq> [] then set_add trimmed unique else unique)
              | JNum (Fin r) \<Rightarrow> set_add (Number_toString P (Fin r)) unique
              | JNum _ \<Rightarrow> unique
              | JNull \<Rightarrow> unique
              | JBool _ \<Rightarrow> unique
              | record \<Rightarrow>
                  (case first_some [pickIdentifier P (get_prop record ''id''),
                                    pickIdentifier P (get_prop record ''routerId''),
                                    pickIdentifier P (get_prop record ''uuid''),
                                    pickString (get_prop record ''router''),
                                    pickString (get_prop record ''name'')] of
                     Some identifier \<Rightarrow> if identifier \<noteq> [] then set_add identifier unique else unique
                   | None \<Rightarrow> unique))
       [] entries"

subsection \<open>Text frames\<close>

text \<open>\<open>tryParseJson\<close> is \<open>JSON_parse\<close> itself: \<open>None\<close> for \<open>success: false\<close>.\<close>

definition normalizeTextPayload :: "platform \<Rightarrow> string \<Rightarrow> json" where
  "normalizeTextPayload P v =
     (let trimmed = trim v
      in if trimmed = [] then JNull
         else (case JSON_parse P trimmed of
                 Some direct \<Rightarrow> direct
               | None \<Rightarrow>
                   (let segments = filter (\<lambda>segment. segment \<noteq> []) (map trim (split_lines trimmed));
                        parsedSegments =
                          filter (\<lambda>segment. segment \<noteq> JNull \<and> segment \<noteq> JStr [])
                            (map (\<lambda>segment. case JSON_parse P segment of
                                               Some parsed \<Rightarrow> parsed
                                             | None \<Rightarrow> JStr segment) segments)
                    in if length segments > 1 \<and> length parsedSegments = 1 then hd parsedSegments
                       else if length segments > 1 \<and> length parsedSegments > 1 then JArr parsedSegments
                       else JStr trimmed)))"

subsection \<open>History points\<close>

text \<open>\<open>metricToNumber\<close>: a stored number counts when it is finite, a stored string as
  \<open>pickNumber\<close> reads it.\<close>

definition metricToNumber :: "metric_value option \<Rightarrow> number option" where
  "metricToNumber v =
     (case v of
        Some (MVNum (Fin r)) \<Rightarrow> Some (Fin r)
      | Some (MVStr s) \<Rightarrow> pickNumber (Some (JStr s))
      | _ \<Rightarrow> None)"

text \<open>The array \<open>values\<close> of one interface: what \<open>metricToNumber\<close> gives for \<open>rx\<close> and \<open>tx\<close>,
  without the \<open>null\<close>s.\<close>

definition iface_values :: "RouterInterfaceStat \<Rightarrow> number list" where
  "iface_values iface = List.map_filter (\<lambda>v. v) [metricToNumber (rx iface), metricToNumber (tx iface)]"


text \<open>The callback of \<open>interfaces.forEach\<close> in \<open>calculatePeakTrafficFromInterfaces\<close>, as a
  function of the interface and of the variable \<open>peak\<close>.\<close>

definition peak_step :: "RouterInterfaceStat \<Rightarrow> number option \<Rightarrow> number option" where
  "peak_step iface peak =
     (let vals = iface_values iface
      in if length vals = 0 then peak
         else (let localPeak = math_max vals
               in case peak of
                    None \<Rightarrow> Some localPeak
                  | Some p \<Rightarrow> if num_lt p localPeak then Some localPeak else Some p))"

definition calculatePeakTrafficFromInterfaces :: "RouterInterfaceStat list \<Rightarrow> number option" where
  "calculatePeakTrafficFromInterfaces ifaces = fold peak_step ifaces None"

text \<open>\<open>points.slice(-n)\<close>.\<close>

definition slice_last :: "nat \<Rightarrow> 'a list \<Rightarrow> 'a list" where
  "slice_last n xs = drop (length xs - n) xs"

definition history_point :: "int \<Rightarrow> RouterMetric \<Rightarrow> RouterHistoryPoint" where
  "history_point ts metric =
     \<lparr>timestamp = ts, point_cpu = cpu metric, point_memory = memory metric,
      point_active = active metric,
      peakTraffic = calculatePeakTrafficFromInterfaces (interfaces metric)\<rparr>"

subsection \<open>Objects used as dictionaries\<close>

text \<open>
  The metric table and the history are plain objects, made by \<open>{}\<close> or \<open>{ ...prev }\<close> and
  indexed by router identifiers, so their prototype is \<open>Object.prototype\<close>. Such an object is
  the map of its own properties here; \<open>{ ...prev }\<close> copies the own properties, so it is the
  same map, and \<open>Object.keys\<close> and \<open>Object.values\<close> see the own properties only.

  \<open>object_prototype_names\<close> are the property names of \<open>Object.prototype\<close> (ECMAScript
  20.1.3 and B.2.2). Each of them is a function, but \<open>__proto__\<close>, an accessor: read, it gives
  the prototype, and assigned an object on an object without an own property of that name,
  it replaces the prototype and adds no property.
\<close>

definition object_prototype_names :: "string list" where
  "object_prototype_names =
     [''constructor'', ''__defineGetter__'', ''__defineSetter__'', ''hasOwnProperty'',
      ''__lookupGetter__'', ''__lookupSetter__'', ''isPrototypeOf'', ''propertyIsEnumerable'',
      ''toString'', ''valueOf'', ''__proto__'', ''toLocaleString'']"

text \<open>What \<open>next[k]\<close> reads: an own property, a property of the prototype, or \<open>undefined\<close>.\<close>

datatype 'a lookup = Own 'a | Inherited | Undefined

definition obj_get :: "(string \<rightharpoonup> 'a) \<Rightarrow> string \<Rightarrow> 'a lookup" where
  "obj_get next k =
     (case next k of
        Some v \<Rightarrow> Own v
      | None \<Rightarrow> if k \<in> set object_prototype_names then Inherited else Undefined)"

text \<open>\<open>next[k] = v\<close> for an object \<open>v\<close>.\<close>

definition obj_set :: "string \<Rightarrow> 'a \<Rightarrow> (string \<rightharpoonup> 'a) \<Rightarrow> (string \<rightharpoonup> 'a)" where
  "obj_set k v next = (if k = ''__proto__'' \<and> next k = None then next else next(k \<mapsto> v))"

text \<open>\<open>xs.forEach(f)\<close> on a state, for a callback that may throw: the first exception ends
  the loop.\<close>

fun for_each :: "('a \<Rightarrow> 's \<Rightarrow> error + 's) \<Rightarrow> 'a list \<Rightarrow> 's \<Rightarrow> error + 's" where
  "for_each f [] s = Inr s"
| "for_each f (x # xs) s = (case f x s of Inl e \<Rightarrow> Inl e | Inr s' \<Rightarrow> for_each f xs s')"

text \<open>\<open>pushPoint\<close> of the delta branch; the full branch has the same statements inline. The
  test \<open>next[metric.id] ? [...next[metric.id]] : []\<close> finds an own property, which is an array
  and so truthy, or nothing, or an inherited function or object, which is truthy and not
  iterable: the spread then throws \<open>TypeError\<close>.\<close>

definition pushPoint ::
    "int \<Rightarrow> RouterMetric \<Rightarrow> (string \<rightharpoonup> RouterHistoryPoint list)
     \<Rightarrow> error + (string \<rightharpoonup> RouterHistoryPoint list)" where
  "pushPoint ts metric next =
     (case obj_get next (router_id metric) of
        Inherited \<Rightarrow> Inl TypeError
      | found \<Rightarrow>
          (let points = (case found of Own ps \<Rightarrow> ps | _ \<Rightarrow> []) @ [history_point ts metric]
           in Inr (obj_set (router_id metric) (slice_last 60 points) next)))"

subsection \<open>The message handler\<close>

record monitor_state =
  routerMetrics :: "string \<rightharpoonup> RouterMetric"
  history :: "string \<rightharpoonup> RouterHistoryPoint list"

definition initial_state :: monitor_state where
  "initial_state = \<lparr>routerMetrics = Map.empty, history = Map.empty\<rparr>"

text \<open>\<open>{ ...a, ...b }\<close> on two metrics: every own key of \<open>b\<close> replaces the one of \<open>a\<close>. A metric
  is the object literal that \<open>normalizeRouterItem\<close> returns, which has all nine keys, the
  \<open>null\<close> ones too.\<close>

definition spread :: "RouterMetric \<Rightarrow> RouterMetric \<Rightarrow> RouterMetric" where
  "spread a b =
     a\<lparr>router_id := router_id b, router_name := router_name b,
       router_status := router_status b, total := total b, active := active b,
       cpu := cpu b, memory := memory b, interfaces := interfaces b,
       lastUpdatedAt := lastUpdatedAt b\<rparr>"

text \<open>\<open>ids.forEach((id) => { delete next[id] })\<close>: \<open>delete\<close> removes an own property and
  leaves the prototype alone.\<close>

definition delete_keys :: "string list \<Rightarrow> (string \<rightharpoonup> 'a) \<Rightarrow> (string \<rightharpoonup> 'a)" where
  "delete_keys ids next = fold (\<lambda>k m. m(k := None)) ids next"

text \<open>The two state updates of the full branch. The first only assigns. The second pushes
  a point for every metric and then deletes the own keys that are not in \<open>validIds\<close>.\<close>

definition full_metrics :: "RouterMetric list \<Rightarrow> (string \<rightharpoonup> RouterMetric)" where
  "full_metrics normalized = fold (\<lambda>metric next. obj_set (router_id metric) metric next) normalized Map.empty"

definition full_history ::
    "int \<Rightarrow> RouterMetric list \<Rightarrow> (string \<rightharpoonup> RouterHistoryPoint list)
     \<Rightarrow> error + (string \<rightharpoonup> RouterHistoryPoint list)" where
  "full_history ts normalized prev =
     (case for_each (pushPoint ts) normalized prev of
        Inl e \<Rightarrow> Inl e
      | Inr next \<Rightarrow> Inr (next |` set (map router_id normalized)))"

text \<open>
  The two state updates of the delta branch. In the first, \<open>previousMetric\<close> is an own
  property, or \<open>undefined\<close>, for which \<open>metric\<close> stands in, or an inherited function or
  prototype object, whose spread copies nothing: none of them has an enumerable own
  property. Once an assignment to \<open>__proto__\<close> has replaced the prototype of \<open>next\<close> by a
  metric, a later read in the same update can also find a field of that metric (for a
  router called \<open>name\<close>, say); the entry written then still has the nine fields of
  \<open>metric\<close>, as here, and in the program also the indices of an inherited string or array,
  which a \<open>RouterMetric\<close> does not hold. The handler does not get that far: the history
  update of the same message throws at the identifier \<open>__proto__\<close> (\<open>handle_payload\<close>).
\<close>

definition delta_metrics ::
    "int \<Rightarrow> RouterMetric list \<Rightarrow> RouterMetric list \<Rightarrow> string list
     \<Rightarrow> (string \<rightharpoonup> RouterMetric) \<Rightarrow> (string \<rightharpoonup> RouterMetric)" where
  "delta_metrics ts normalizedAdded normalizedUpdated removalIds prev =
     (let next1 = fold (\<lambda>metric next. obj_set (router_id metric) metric next) normalizedAdded prev;
          next2 = fold (\<lambda>metric next.
                          let previousMetric = obj_get next (router_id metric)
                          in obj_set (router_id metric)
                               ((case previousMetric of
                                   Own pm \<Rightarrow> spread pm metric
                                 | Inherited \<Rightarrow> metric
                                 | Undefined \<Rightarrow> spread metric metric)
                                  \<lparr>lastUpdatedAt := ts\<rparr>) next)
                    normalizedUpdated next1
      in delete_keys removalIds next2)"

definition delta_history ::
    "int \<Rightarrow> RouterMetric list \<Rightarrow> RouterMetric list \<Rightarrow> string list
     \<Rightarrow> (string \<rightharpoonup> RouterHistoryPoint list) \<Rightarrow> error + (string \<rightharpoonup> RouterHistoryPoint list)" where
  "delta_history ts normalizedAdded normalizedUpdated removalIds prev =
     (case for_each (pushPoint ts) normalizedAdded prev of
        Inl e \<Rightarrow> Inl e
      | Inr next1 \<Rightarrow>
          (case for_each (pushPoint ts) normalizedUpdated next1 of
             Inl e \<Rightarrow> Inl e
           | Inr next2 \<Rightarrow> Inr (delete_keys removalIds next2)))"

text \<open>
  The body of \<open>socket.onmessage\<close> once the frame is decoded; \<open>ts\<close> is what \<open>Date.now()\<close>
  returns. The time that \<open>normalizeRouterItem\<close> reads for \<open>lastUpdatedAt\<close> is replaced by
  \<open>ts\<close> at once, so \<open>ts\<close> stands for it too.

  The handler passes the two updates to \<open>setRouterMetrics\<close> and \<open>setHistory\<close>, and React
  runs them when it renders the component next, after the handler has returned: an
  exception of the history update is not caught by the \<open>try\<close> of the handler, the render
  fails and neither new value becomes the state. That outcome is \<open>Inl\<close>; \<open>Inr\<close> is the state
  after the render.
\<close>

definition handle_payload :: "platform \<Rightarrow> int \<Rightarrow> json \<Rightarrow> monitor_state \<Rightarrow> error + monitor_state" where
  "handle_payload P ts payload st =
     (case interpretMonitoringPayload payload of
        None \<Rightarrow> Inr st
      | Some (Full routers) \<Rightarrow>
          (let normalized = map (\<lambda>metric. metric\<lparr>lastUpdatedAt := ts\<rparr>)
                              (normalizeRouterPayload P ts (Some (JArr routers)))
           in if length normalized = 0 then Inr st
              else (case full_history ts normalized (history st) of
                      Inl e \<Rightarrow> Inl e
                    | Inr h \<Rightarrow> Inr \<lparr>routerMetrics = full_metrics normalized, history = h\<rparr>))
      | Some (Delta added updated removed) \<Rightarrow>
          (let normalizedAdded = map (\<lambda>metric. metric\<lparr>lastUpdatedAt := ts\<rparr>)
                                   (normalizeRouterPayload P ts (Some (JArr added)));
               normalizedUpdated = map (\<lambda>metric. metric\<lparr>lastUpdatedAt := ts\<rparr>)
                                     (normalizeRouterPayload P ts (Some (JArr updated)));
               removalIds = extractRouterIdentifiers P removed
           in if length normalizedAdded = 0 \<and> length normalizedUpdated = 0 \<and> length removalIds = 0
              then Inr st
              else (case delta_history ts normalizedAdded normalizedUpdated removalIds (history st) of
                      Inl e \<Rightarrow> Inl e
                    | Inr h \<Rightarrow>
                        Inr \<lparr>routerMetrics =
                               delta_metrics ts normalizedAdded normalizedUpdated removalIds
                                 (routerMetrics st),
                             history = h\<rparr>)))"

text \<open>\<open>socket.onmessage\<close> on a text frame; a binary frame is decoded to text and goes the
  same way.\<close>

definition onmessage :: "platform \<Rightarrow> int \<Rightarrow> string \<Rightarrow> monitor_state \<Rightarrow> error + monitor_state" where
  "onmessage P ts frame st = handle_payload P ts (normalizeTextPayload P frame) st"

text \<open>What follows a step that may have failed.\<close>

definition and_then :: "error + 's \<Rightarrow> ('s \<Rightarrow> error + 's) \<Rightarrow> error + 's" where
  "and_then r f = (case r of Inl e \<Rightarrow> Inl e | Inr s \<Rightarrow> f s)"

text \<open>A run of the handler over the frames of a connection, each with its time of arrival.\<close>

definition run_frames :: "platform \<Rightarrow> (int \<times> string) list \<Rightarrow> monitor_state \<Rightarrow> error + monitor_state" where
  "run_frames P frames st = for_each (\<lambda>(ts, frame). onmessage P ts frame) frames st"

section \<open>Sample data\<close>

text \<open>A platform for the closed examples. Its \<open>JSON.parse\<close> and \<open>JSON.stringify\<close> know the
  documents of \<open>sample_documents\<close> and agree with the real ones there. \<open>JSON.parse\<close> also
  knows a document whose number is beyond the doubles and reads as \<open>Infinity\<close>, and
  \<open>JSON.stringify\<close> writes \<open>null\<close> for a number that is not finite, which \<open>JSON.parse\<close> reads
  as \<open>null\<close>. Its keyed hash is the key followed by the message; its decoder inverts
  \<open>base64url\<close>; \<open>String(n)\<close> prints the integer part in decimal digits.\<close>

definition sample_claims :: json where
  "sample_claims = token_payload (Fin 1) ''admin'' (Fin 1000)"

definition sample_delta_A :: json where
  "sample_delta_A = JObj [(''type'', JStr ''delta''), (''routers'', JObj [(''removed'', JArr [JStr ''A''])])]"

definition sample_delta_B :: json where
  "sample_delta_B = JObj [(''type'', JStr ''delta''), (''routers'', JObj [(''removed'', JArr [JStr ''B''])])]"

definition sample_documents :: "(string \<times> json) list" where
  \<open>sample_documents =
     [(''{"userId":1,"username":"admin","exp":1000}'', sample_claims),
      (''{"type":"delta","routers":{"removed":["A"]}}'', sample_delta_A),
      (''{"type":"delta","routers":{"removed":["B"]}}'', sample_delta_B),
      (''{"id":"A"}'', JObj [(''id'', JStr ''A'')]),
      (''null'', JNull),
      (''{"userId":1,"username":"admin","exp":1700000000000}'',
         token_payload (Fin 1) ''admin'' (Fin 1700000000000))]\<close>

definition sample_overflow :: "(string \<times> json) list" where
  \<open>sample_overflow =
     [(''{"exp":1e999}'', JObj [(''exp'', JNum PInf)]),
      (''{"userId":1,"username":"admin","exp":null}'',
         JObj [(''userId'', JNum (Fin 1)), (''username'', JStr ''admin''), (''exp'', JNull)])]\<close>

definition sample_not_finite :: "(json \<times> string) list" where
  \<open>sample_not_finite =
     [(token_payload (Fin 1) ''admin'' PInf, ''{"userId":1,"username":"admin","exp":null}'')]\<close>

definition sample_platform :: platform where
  "sample_platform =
     \<lparr>JSON_parse = map_of (sample_documents @ sample_overflow),
      JSON_stringify = (\<lambda>j. case map_of (map (\<lambda>(s, d). (d, s)) sample_documents @ sample_not_finite) j of
                              Some s \<Rightarrow> s | None \<Rightarrow> ''null''),
      Number_toString = (\<lambda>n. case n of
                                Fin r \<Rightarrow> (if r < 0 then ''-'' else []) @ show_nat (nat \<lfloor>\<bar>r\<bar>\<rfloor>)
                              | PInf \<Rightarrow> ''Infinity''
                              | NInf \<Rightarrow> ''-Infinity''
                              | NaN \<Rightarrow> ''NaN''),
      hmac_sha256 = (\<lambda>key msg. key @ msg),
      base64url_to_utf8 = unbase64url,
      AUTH_SECRET = None\<rparr>"

text \<open>A token with the fixed header and the signature of the server, whose body is the
  encoding of any document.\<close>

definition token_with_body :: "platform \<Rightarrow> string \<Rightarrow> string" where
  "token_with_body P doc =
     (let body = base64url doc
      in HEADER_B64 @ ''.'' @ body @ ''.'' @ hmac_digest P (HEADER_B64 @ ''.'' @ body))"

text \<open>The token \<open>tok\<close> with the character at position \<open>i\<close> of its body segment replaced by
  \<open>c\<close>.\<close>

definition tamper_body :: "nat \<Rightarrow> char \<Rightarrow> string \<Rightarrow> string" where
  "tamper_body i c tok =
     (case split_on CHR ''.'' tok of
        [h, b, s] \<Rightarrow> h @ ''.'' @ b[i := c] @ ''.'' @ s
      | _ \<Rightarrow> tok)"

text \<open>A sequence of pushes, each with its own time.\<close>

definition push_all ::
    "(int \<times> RouterMetric) list \<Rightarrow> (string \<rightharpoonup> RouterHistoryPoint list)
     \<Rightarrow> error + (string \<rightharpoonup> RouterHistoryPoint list)" where
  "push_all pushes next = for_each (\<lambda>(ts, metric). pushPoint ts metric) pushes next"

text \<open>The points stored for a router, none when it has no history.\<close>

definition stored_points :: "(string \<rightharpoonup> RouterHistoryPoint list) \<Rightarrow> string \<Rightarrow> RouterHistoryPoint list" where
  "stored_points next r = (case next r of Some ps \<Rightarrow> ps | None \<Rightarrow> [])"

text \<open>What a push and a sequence of pushes leave when none of them throws.\<close>

definition store_point ::
    "int \<Rightarrow> RouterMetric \<Rightarrow> (string \<rightharpoonup> RouterHistoryPoint list) \<Rightarrow> (string \<rightharpoonup> RouterHistoryPoint list)" where
  "store_point ts metric next =
     next(router_id metric \<mapsto>
       slice_last 60 (stored_points next (router_id metric) @ [history_point ts metric]))"

definition store_all ::
    "(int \<times> RouterMetric) list \<Rightarrow> (string \<rightharpoonup> RouterHistoryPoint list) \<Rightarrow> (string \<rightharpoonup> RouterHistoryPoint list)" where
  "store_all pushes next = fold (\<lambda>(ts, metric). store_point ts metric) pushes next"

text \<open>The points that a sequence of pushes holds for the router \<open>r\<close>, oldest first.\<close>

definition points_for :: "string \<Rightarrow> (int \<times> RouterMetric) list \<Rightarrow> RouterHistoryPoint list" where
  "points_for r pushes =
     map (\<lambda>(ts, metric). history_point ts metric) (filter (\<lambda>(ts, metric). router_id metric = r) pushes)"

text \<open>A metric that carries only an identifier and a name, as \<open>{"id": ...}\<close> normalizes, and
  its history point.\<close>

definition bare_metric :: "string \<Rightarrow> string \<Rightarrow> int \<Rightarrow> RouterMetric" where
  "bare_metric ident name ts =
     \<lparr>router_id = ident, router_name = name, router_status = None, total = None,
      active = None, cpu = None, memory = None, interfaces = [], lastUpdatedAt = ts\<rparr>"

definition bare_point :: "int \<Rightarrow> RouterHistoryPoint" where
  "bare_point ts =
     \<lparr>timestamp = ts, point_cpu = None, point_memory = None, point_active = None,
      peakTraffic = None\<rparr>"

text \<open>Seventy pushes for one router, at times 0 to 69.\<close>

definition sample_metric :: "string \<Rightarrow> RouterMetric" where
  "sample_metric ident =
     \<lparr>router_id = ident, router_name = ''Router 1'', router_status = None, total = None,
      active = None, cpu = Some (Fin 50), memory = Some (Fin 60), interfaces = [],
      lastUpdatedAt = 0\<rparr>"

definition seventy_pushes :: "string \<Rightarrow> (int \<times> RouterMetric) list" where
  "seventy_pushes ident = map (\<lambda>i. (int i, sample_metric ident)) [0..<70]"

text \<open>Snapshots and a delta for the router \<open>A\<close>, and snapshots of one router named as a
  property of \<open>Object.prototype\<close>.\<close>

definition snapshot_AB :: json where
  "snapshot_AB = JArr [JObj [(''id'', JStr ''A'')], JObj [(''id'', JStr ''B'')]]"

definition snapshot_BC :: json where
  "snapshot_BC = JArr [JObj [(''id'', JStr ''B'')], JObj [(''id'', JStr ''C'')]]"

definition snapshot_A :: json where
  "snapshot_A = JArr [JObj [(''id'', JStr ''A''), (''cpu'', JNum (Fin 50)), (''memory'', JNum (Fin 60))]]"

definition update_A :: json where
  "update_A =
     JObj [(''type'', JStr ''delta''),
           (''routers'', JObj [(''updated'', JArr [JObj [(''id'', JStr ''A''), (''cpu'', JNum (Fin 70))]])])]"

definition snapshot_constructor :: json where
  "snapshot_constructor = JArr [JObj [(''id'', JStr ''constructor'')]]"

definition snapshot_proto :: json where
  "snapshot_proto = JArr [JObj [(''id'', JStr ''__proto__'')]]"

text \<open>The numeral of \<open>10^309\<close>, which is beyond the doubles, and interfaces that carry it:
  one as the \<open>rx\<close> of an object and one as a bare string, each beside an interface at 5.\<close>

definition huge_numeral :: string where
  "huge_numeral = CHR ''1'' # replicate 309 CHR ''0''"


definition huge_string_interfaces :: json where
  "huge_string_interfaces = JArr [JStr huge_numeral, JNum (Fin 5)]"

text \<open>Text frames of two lines: two delta messages; \<open>null\<close> and one router; twice \<open>null\<close>.\<close>

definition two_deltas_frame :: string where
  \<open>two_deltas_frame =
     ''{"type":"delta","routers":{"removed":["A"]}}'' @ [CHR 0x0A]
     @ ''{"type":"delta","routers":{"removed":["B"]}}''\<close>

definition null_and_router_frame :: string where
  \<open>null_and_router_frame = ''null'' @ [CHR 0x0A] @ ''{"id":"A"}''\<close>

definition two_nulls_frame :: string where
  \<open>two_nulls_frame = ''null'' @ [CHR 0x0A] @ ''null''\<close>

text \<open>The reading of the specification for a frame of several payloads: each one goes
  through the handler in turn, classified on its own.\<close>

definition process_each_in_turn ::
    "platform \<Rightarrow> int \<Rightarrow> json list \<Rightarrow> monitor_state \<Rightarrow> error + monitor_state" where
  "process_each_in_turn P ts payloads st = for_each (handle_payload P ts) payloads st"

text \<open>The states that the sample messages leave: after the snapshot of \<open>A\<close> and \<open>B\<close>; after
  the snapshot of \<open>A\<close> with \<open>cpu = 50\<close> and \<open>memory = 60\<close>, and after the delta that updates
  \<open>A\<close> with \<open>cpu = 70\<close>; after a snapshot of two items without identifier or name.\<close>

definition state_AB :: monitor_state where
  "state_AB =
     \<lparr>routerMetrics = [''A'' \<mapsto> bare_metric ''A'' ''Router 1'' 1, ''B'' \<mapsto> bare_metric ''B'' ''Router 2'' 1],
      history = [''A'' \<mapsto> [bare_point 1], ''B'' \<mapsto> [bare_point 1]]\<rparr>"

definition state_A :: monitor_state where
  "state_A =
     \<lparr>routerMetrics = [''A'' \<mapsto> (sample_metric ''A'')\<lparr>lastUpdatedAt := 1\<rparr>],
      history = [''A'' \<mapsto> [(bare_point 1)\<lparr>point_cpu := Some (Fin 50), point_memory := Some (Fin 60)\<rparr>]]\<rparr>"

definition state_A_updated :: monitor_state where
  "state_A_updated =
     \<lparr>routerMetrics = [''A'' \<mapsto> (bare_metric ''A'' ''Router 1'' 2)\<lparr>cpu := Some (Fin 70)\<rparr>],
      history = [''A'' \<mapsto> [(bare_point 1)\<lparr>point_cpu := Some (Fin 50), point_memory := Some (Fin 60)\<rparr>,
                             (bare_point 2)\<lparr>point_cpu := Some (Fin 70)\<rparr>]]\<rparr>"

definition state_two_routers :: monitor_state where
  "state_two_routers =
     \<lparr>routerMetrics = [''Router 1'' \<mapsto> bare_metric ''Router 1'' ''Router 1'' 2,
                       ''Router 2'' \<mapsto> bare_metric ''Router 2'' ''Router 2'' 2],
      history = [''Router 1'' \<mapsto> [bare_point 2], ''Router 2'' \<mapsto> [bare_point 2]]\<rparr>"


section \<open>Properties of the rounding\<close>

lemma bit_length_bounds: "0 < n \<Longrightarrow> 2 ^ (bit_length n - 1) \<le> n \<and> n < 2 ^ bit_length n"
proof (induction n rule: bit_length.induct)
  case (1 n)
  show ?case
  proof (cases "n div 2 = 0")
    case True
    with 1(2) have "n = 1" by (simp add: div_eq_0_iff) 
    then show ?thesis by (simp add: bit_length.simps [of "Suc 0"] bit_length.simps [of 0])
  next
    case False
    then have pos: "0 < n div 2" by simp
    from 1(1) [OF _ pos] 1(2)
    have ih: "2 ^ (bit_length (n div 2) - 1) \<le> n div 2" "n div 2 < 2 ^ bit_length (n div 2)"
      by simp_all
    have bl: "bit_length n = Suc (bit_length (n div 2))"
      using 1(2) by (simp add: bit_length.simps [of n])
    have pos': "0 < bit_length (n div 2)"
      using pos by (simp add: bit_length.simps [of "n div 2"])
    have "2 ^ (bit_length n - 1) = 2 * 2 ^ (bit_length (n div 2) - 1)"
      using pos' by (cases "bit_length (n div 2)") (simp_all add: bl)
    also have "\<dots> \<le> 2 * (n div 2)" using ih(1) by simp
    also have "\<dots> \<le> n" by simp
    finally have lo: "2 ^ (bit_length n - 1) \<le> n" .
    have "n < 2 * (n div 2) + 2" by presburger
    also have "\<dots> \<le> 2 * 2 ^ bit_length (n div 2)" using ih(2) by simp
    finally have "n < 2 ^ bit_length n" by (simp add: bl)
    with lo show ?thesis by simp
  qed
qed


lemma bit_length_pos: "0 < n \<Longrightarrow> 0 < bit_length n"
  by (simp add: bit_length.simps [of n])

lemma exponent_bounds:
  assumes "0 < r"
  shows "2 powi exponent r \<le> r" and "r < 2 powi (exponent r + 1)"
proof -
  have "2 powi exponent r \<le> r \<and> r < 2 powi (exponent r + 1)"
  proof (cases "1 \<le> r")
    case True
    define n where "n = nat \<lfloor>r\<rfloor>"
    define b where "b = bit_length n"
    have n1: "0 < n" using True by (simp add: n_def)
    have b1: "0 < b" unfolding b_def using n1 by (rule bit_length_pos)
    have e: "exponent r = int b - 1" using True by (simp add: exponent_def n_def b_def)
    have fl: "0 \<le> \<lfloor>r\<rfloor>" using True by simp
    have nn: "(of_nat n :: rat) = of_int \<lfloor>r\<rfloor>"
      unfolding n_def using fl by simp
    have nr: "(of_nat n :: rat) \<le> r" "r < of_nat n + 1"
      unfolding nn by linarith+
    from bit_length_bounds [OF n1]
    have bb: "2 ^ (b - 1) \<le> n" "n < 2 ^ b" by (simp_all add: b_def)
    have eb: "int b - 1 = int (b - 1)" using b1 by simp
    have p1: "(2::rat) powi (int b - 1) = 2 ^ (b - 1)"
      unfolding eb by (rule power_int_of_nat)
    have p2: "(2::rat) powi (int b - 1 + 1) = 2 ^ b"
      by simp
    have "(2::rat) ^ (b - 1) \<le> of_nat n" using bb(1) by simp
    then have lo: "(2::rat) ^ (b - 1) \<le> r" using nr(1) by (rule order_trans)
    have "n + 1 \<le> 2 ^ b" using bb(2) by simp
    then have "(of_nat (n + 1) :: rat) \<le> of_nat (2 ^ b)" by (rule of_nat_mono)
    then have "(of_nat n :: rat) + 1 \<le> 2 ^ b" by simp
    with nr(2) have hi: "r < 2 ^ b" by (rule less_le_trans)
    show ?thesis unfolding e p1 p2 using lo hi by simp
  next
    case False
    define x where "x = 1 / r"
    define c where "c = \<lceil>x\<rceil>"
    define m where "m = nat c - 1"
    define k where "k = bit_length m"
    have x1: "1 < x" using False assms by (simp add: x_def)
    have c2: "2 \<le> c" unfolding c_def using x1 by linarith
    have m1: "0 < m" using c2 by (simp add: m_def)
    have k1: "0 < k" unfolding k_def using m1 by (rule bit_length_pos)
    have e: "exponent r = - int k" using False by (simp add: exponent_def x_def c_def m_def k_def)
    have cm: "c = int m + 1" using c2 by (simp add: m_def)
    have xc: "x \<le> of_int c" "of_int c - 1 < x" unfolding c_def by linarith+
    from bit_length_bounds [OF m1]
    have bb: "2 ^ (k - 1) \<le> m" "m < 2 ^ k" by (simp_all add: k_def)
    have "m + 1 \<le> 2 ^ k" using bb(2) by simp
    then have "(of_nat (m + 1) :: rat) \<le> of_nat (2 ^ k)" by (rule of_nat_mono)
    then have "(of_nat m :: rat) + 1 \<le> 2 ^ k" by simp
    moreover have "of_int c = (of_nat m :: rat) + 1" unfolding cm by simp
    ultimately have xk: "x \<le> 2 ^ k" using xc(1) by linarith
    have "(2::rat) ^ (k - 1) \<le> of_nat m" using bb(1) by simp
    moreover have "of_int c - 1 = (of_nat m :: rat)" unfolding cm by simp
    ultimately have kx: "(2::rat) ^ (k - 1) < x" using xc(2) by linarith
    have r: "r = 1 / x" using assms by (simp add: x_def)
    have xpos: "0 < x" using x1 by simp
    have lo: "1 / 2 ^ k \<le> r" unfolding r using xk xpos by (simp add: frac_le)
    have hi: "r < 1 / 2 ^ (k - 1)" unfolding r using kx xpos by (simp add: frac_less2)
    have p1: "(2::rat) powi (- int k) = 1 / 2 ^ k"
      by (simp add: power_int_minus field_simps)
    have ek: "- int k + 1 = - int (k - 1)" using k1 by simp
    have "(2::rat) powi (- int (k - 1)) = 1 / 2 ^ (k - 1)"
      by (simp add: power_int_minus field_simps)
    then have p2: "(2::rat) powi (- int k + 1) = 1 / 2 ^ (k - 1)"
      unfolding ek .
    show ?thesis unfolding e p1 p2 using lo hi by simp
  qed
  then show "2 powi exponent r \<le> r" and "r < 2 powi (exponent r + 1)" by simp_all
qed

lemma round_half_even_ge: "of_int k \<le> q \<Longrightarrow> k \<le> round_half_even q"
proof -
  assume "of_int k \<le> q"
  then have "k \<le> \<lfloor>q\<rfloor>" by (simp add: le_floor_iff)
  then show ?thesis by (auto simp: round_half_even_def Let_def)
qed

lemma round_half_even_int: "round_half_even (of_int k) = k"
  by (simp add: round_half_even_def)

lemma round_half_even_le: "q \<le> of_int k \<Longrightarrow> round_half_even q \<le> k"
proof -
  assume a: "q \<le> of_int k"
  show ?thesis
  proof (cases "q = of_int k")
    case True
    then show ?thesis by (simp add: round_half_even_int)
  next
    case False
    with a have "q < of_int k" by simp
    then have "\<lfloor>q\<rfloor> < k" by (simp add: floor_less_iff)
    then show ?thesis by (auto simp: round_half_even_def Let_def)
  qed
qed

lemma round_half_even_below_half:
  assumes "q < of_int k - 1 / 2"
  shows "round_half_even q \<le> k - 1"
proof -
  have "q < of_int k" using assms by simp
  then have f: "\<lfloor>q\<rfloor> \<le> k - 1" by (simp add: floor_less_iff)
  show ?thesis
  proof (cases "\<lfloor>q\<rfloor> = k - 1")
    case True
    then have "q - of_int \<lfloor>q\<rfloor> < 1 / 2" using assms by simp
    then show ?thesis using True by (simp add: round_half_even_def Let_def)
  next
    case False
    with f have "\<lfloor>q\<rfloor> + 1 \<le> k - 1" by simp
    then show ?thesis by (auto simp: round_half_even_def Let_def)
  qed
qed


lemma round_half_even_nonneg: "0 \<le> q \<Longrightarrow> 0 \<le> round_half_even q"
  using round_half_even_ge [of 0 q] by simp

lemma exponent_ge: 
  assumes "0 < x" and "2 powi k \<le> x"
  shows "k \<le> exponent x"
proof (rule ccontr)
  assume "\<not> k \<le> exponent x"
  then have "exponent x + 1 \<le> k" by simp
  then have "(2::rat) powi (exponent x + 1) \<le> 2 powi k"
    by (rule power_int_increasing) simp
  with assms(2) exponent_bounds(2) [OF assms(1)] show False by simp
qed

lemma exponent_less:
  assumes "0 < x" and "x < 2 powi k"
  shows "exponent x < k"
proof (rule ccontr)
  assume "\<not> exponent x < k"
  then have "k \<le> exponent x" by simp
  then have "(2::rat) powi k \<le> 2 powi exponent x"
    by (rule power_int_increasing) simp
  with assms(2) exponent_bounds(1) [OF assms(1)] show False by simp
qed

lemma pow2_split: "(2::rat) powi a * 2 powi (b - a) = 2 powi b"
  using power_int_add [of "2::rat" a "b - a"] by simp

lemma to_double_rounded:
  assumes "x \<noteq> 0"
  shows "to_double x =
           (if 2 powi 1024 \<le> rounded x then PInf
            else if rounded x \<le> - (2 powi 1024) then NInf
            else Fin (rounded x))"
  using assms by (simp add: to_double_def)

lemma rounded_nonneg:
  assumes "0 < x"
  shows "0 \<le> rounded x"
proof -
  define u :: rat where "u = 2 powi (max (exponent \<bar>x\<bar>) (- 1022) - 52)"
  have u: "0 < u" unfolding u_def by simp
  then have "0 \<le> x / u" using assms by simp
  then have "0 \<le> round_half_even (x / u)" by (rule round_half_even_nonneg)
  then have "0 \<le> of_int (round_half_even (x / u)) * u" using u by simp
  then show ?thesis unfolding rounded_def u_def .
qed

lemma rounded_ge_pow:
  assumes "0 < x" and "- 1022 \<le> exponent x"
  shows "2 powi exponent x \<le> rounded x"
proof -
  define e where "e = exponent x"
  define u :: rat where "u = 2 powi (e - 52)"
  have u: "0 < u" unfolding u_def by simp
  have m: "max (exponent \<bar>x\<bar>) (- 1022) = e" using assms by (simp add: e_def)
  have r: "rounded x = of_int (round_half_even (x / u)) * u"
    unfolding rounded_def m u_def ..
  have s: "2 powi 52 * u = 2 powi e"
    unfolding u_def using pow2_split [of 52 e] by (simp add: mult.commute)
  have "2 powi e \<le> x" unfolding e_def using assms(1) by (rule exponent_bounds(1))
  then have "2 powi 52 * u \<le> x" unfolding s .
  then have "2 powi 52 \<le> x / u" using u by (simp add: pos_le_divide_eq)
  then have "of_int (2 ^ 52) \<le> x / u" by simp
  then have "2 ^ 52 \<le> round_half_even (x / u)" by (rule round_half_even_ge)
  then have "(of_int (2 ^ 52) :: rat) \<le> of_int (round_half_even (x / u))"
    by (simp only: of_int_le_iff)
  then have "of_int (2 ^ 52) * u \<le> of_int (round_half_even (x / u)) * u"
    using u by (simp only: mult_le_cancel_right_pos)
  moreover have "(of_int (2 ^ 52) :: rat) * u = 2 powi e" using s by simp
  ultimately show ?thesis unfolding r e_def by simp
qed

lemma rounded_le_pow:
  assumes "0 < x"
  shows "rounded x \<le> 2 powi (max (exponent x) (- 1022) + 1)"
proof -
  define E where "E = max (exponent x) (- 1022)"
  define u :: rat where "u = 2 powi (E - 52)"
  have u: "0 < u" unfolding u_def by simp
  have m: "max (exponent \<bar>x\<bar>) (- 1022) = E" using assms by (simp add: E_def)
  have r: "rounded x = of_int (round_half_even (x / u)) * u"
    unfolding rounded_def m u_def ..
  have s: "2 powi 53 * u = 2 powi (E + 1)"
    unfolding u_def using pow2_split [of 53 "E + 1"] by (simp add: mult.commute)
  have "x < 2 powi (exponent x + 1)" using assms by (rule exponent_bounds(2))
  also have "\<dots> \<le> 2 powi (E + 1)"
    by (rule power_int_increasing) (simp_all add: E_def)
  finally have "x \<le> 2 powi 53 * u" unfolding s by simp
  then have "x / u \<le> 2 powi 53" using u by (simp add: pos_divide_le_eq)
  then have "x / u \<le> of_int (2 ^ 53)" by simp
  then have "round_half_even (x / u) \<le> 2 ^ 53" by (rule round_half_even_le)
  then have "(of_int (round_half_even (x / u)) :: rat) \<le> of_int (2 ^ 53)"
    by (simp only: of_int_le_iff)
  then have "of_int (round_half_even (x / u)) * u \<le> of_int (2 ^ 53) * u"
    using u by (simp only: mult_le_cancel_right_pos)
  moreover have "(of_int (2 ^ 53) :: rat) * u = 2 powi (E + 1)" using s by simp
  ultimately show ?thesis unfolding r E_def by simp
qed



text \<open>Below \<open>2^1024 - 2^970\<close> a number that is not negative rounds to a finite one.\<close>

lemma to_double_finite:
  assumes "0 \<le> x" and "x < 2 powi 1024 - 2 powi 970"
  shows "\<exists>v. to_double x = Fin v \<and> 0 \<le> v"
proof (cases "x = 0")
  case True
  then show ?thesis by (simp add: to_double_def)
next
  case False
  with assms(1) have pos: "0 < x" by simp
  have p970: "(0::rat) < 2 powi 970" by (rule zero_less_power_int) simp
  have lt: "x < 2 powi 1024" using assms(2) p970 by linarith
  have e: "exponent x < 1024" using pos lt by (rule exponent_less)
  define E where "E = max (exponent x) (- 1022)"
  have E: "E \<le> 1023" using e by (simp add: E_def)
  have small: "rounded x < 2 powi 1024"
  proof (cases "E \<le> 1022")
    case True
    have "rounded x \<le> 2 powi (E + 1)" unfolding E_def using pos by (rule rounded_le_pow)
    also have "\<dots> \<le> 2 powi 1023" by (rule power_int_increasing) (use True in simp_all)
    also have "\<dots> < 2 powi 1024" by (rule power_int_strict_increasing) simp_all
    finally show ?thesis .
  next
    case False
    with E have E1023: "E = 1023" by simp
    define u :: rat where "u = 2 powi 971"
    have u: "0 < u" unfolding u_def by simp
    have m: "max (exponent \<bar>x\<bar>) (- 1022) - 52 = 971"
      using pos E1023 by (simp add: E_def)
    have r: "rounded x = of_int (round_half_even (x / u)) * u"
      unfolding rounded_def m u_def ..
    have a: "2 powi 1024 = 2 powi 53 * u"
      unfolding u_def using pow2_split [of 53 1024] by (simp add: mult.commute)
    have b: "2 powi 970 * 2 = u"
      unfolding u_def using pow2_split [of 970 971] by simp
    have "x < 2 powi 53 * u - u / 2" using assms(2) unfolding a b [symmetric] by simp
    also have "\<dots> = (2 powi 53 - 1 / 2) * u" by (simp add: algebra_simps)
    finally have "x / u < 2 powi 53 - 1 / 2" using u by (simp add: pos_divide_less_eq)
    then have "x / u < of_int (2 ^ 53) - 1 / 2" by simp
    then have "round_half_even (x / u) \<le> 2 ^ 53 - 1" by (rule round_half_even_below_half)
    then have "(of_int (round_half_even (x / u)) :: rat) \<le> of_int (2 ^ 53 - 1)"
      by (simp only: of_int_le_iff)
    then have "of_int (round_half_even (x / u)) * u \<le> of_int (2 ^ 53 - 1) * u"
      using u by (simp only: mult_le_cancel_right_pos)
    also have "(of_int (2 ^ 53 - 1) :: rat) * u = 2 powi 53 * u - u" by (simp add: algebra_simps)
    also have "\<dots> < 2 powi 53 * u" using u by simp
    finally show ?thesis unfolding r a .
  qed
  have nonneg: "0 \<le> rounded x" using pos by (rule rounded_nonneg)
  have "(0::rat) < 2 powi 1024" by (rule zero_less_power_int) simp
  with nonneg have "\<not> rounded x \<le> - (2 powi 1024)" by linarith
  with small False have "to_double x = Fin (rounded x)"
    by (simp add: to_double_rounded)
  with nonneg show ?thesis by blast
qed

text \<open>The integers from 0 to \<open>2^53\<close> are doubles, and rounding does not go below one of them.\<close>

lemma rounded_ge_int:
  assumes "0 < n" and "n \<le> 2 ^ 53" and "of_int n \<le> x"
  shows "of_int n \<le> rounded x"
proof -
  have n1: "(1::rat) \<le> of_int n" using assms(1) by simp
  then have x1: "1 \<le> x" using assms(3) by (rule order_trans)
  then have pos: "0 < x" by simp
  have "(2::rat) powi 0 \<le> x" using x1 by simp
  with pos have e0: "0 \<le> exponent x" by (rule exponent_ge)
  define e where "e = exponent x"
  define u :: rat where "u = 2 powi (e - 52)"
  have u: "0 < u" unfolding u_def by simp
  have m: "max (exponent \<bar>x\<bar>) (- 1022) = e" using pos e0 by (simp add: e_def)
  have r: "rounded x = of_int (round_half_even (x / u)) * u"
    unfolding rounded_def m u_def ..
  show ?thesis
  proof (cases "e \<le> 52")
    case True
    define j where "j = nat (52 - e)"
    have ej: "e - 52 = - int j" using True by (simp add: j_def)
    have uj: "u = 1 / 2 ^ j" unfolding u_def ej by (simp add: power_int_minus_divide)
    have "of_int (n * 2 ^ j) = of_int n / u" unfolding uj by simp
    also have "\<dots> \<le> x / u" using assms(3) u by (simp add: divide_right_mono)
    finally have "n * 2 ^ j \<le> round_half_even (x / u)" by (rule round_half_even_ge)
    then have "(of_int (n * 2 ^ j) :: rat) \<le> of_int (round_half_even (x / u))"
      by (simp only: of_int_le_iff)
    then have "of_int (n * 2 ^ j) * u \<le> of_int (round_half_even (x / u)) * u"
      using u by (simp only: mult_le_cancel_right_pos)
    moreover have "(of_int (n * 2 ^ j) :: rat) * u = of_int n" unfolding uj by simp
    ultimately show ?thesis unfolding r by (simp only:)
  next
    case False
    then have "53 \<le> e" by simp
    then have "(2::rat) powi 53 \<le> 2 powi e" by (rule power_int_increasing) simp
    also have "\<dots> \<le> rounded x" unfolding e_def using pos e0 by (intro rounded_ge_pow) simp_all
    finally have "2 powi 53 \<le> rounded x" .
    moreover have "(of_int n :: rat) \<le> of_int (2 ^ 53)" using assms(2) by (simp only: of_int_le_iff)
    ultimately show ?thesis by simp
  qed
qed

lemma to_double_ge_int:
  assumes "0 \<le> n" and "n \<le> 2 ^ 53" and "of_int n \<le> x"
  shows "to_double x = PInf \<or> (\<exists>v. to_double x = Fin v \<and> of_int n \<le> v)"
proof (cases "x = 0")
  case True
  with assms(1,3) have "n = 0" by simp
  with True show ?thesis by (simp add: to_double_def)
next
  case False
  have "(0::rat) \<le> of_int n" using assms(1) by simp
  with assms(3) False have pos: "0 < x" by linarith
  have ge: "of_int n \<le> rounded x"
  proof (cases "n = 0")
    case True
    then show ?thesis using rounded_nonneg [OF pos] by simp
  next
    case False
    with assms(1) have "0 < n" by simp
    then show ?thesis using assms(2,3) by (rule rounded_ge_int)
  qed
  have "(0::rat) < 2 powi 1024" by (rule zero_less_power_int) simp
  with ge \<open>0 \<le> of_int n\<close> have "\<not> rounded x \<le> - (2 powi 1024)" by linarith
  then have "to_double x = (if 2 powi 1024 \<le> rounded x then PInf else Fin (rounded x))"
    using False by (simp add: to_double_rounded)
  with ge show ?thesis by (cases "2 powi 1024 \<le> rounded x") simp_all
qed

lemma rounded_int:
  assumes "0 < n" and "n \<le> 2 ^ 53"
  shows "rounded (of_int n) = of_int n"
proof -
  define x :: rat where "x = of_int n"
  have pos: "0 < x" using assms(1) by (simp add: x_def)
  have lo: "of_int n \<le> rounded x" using assms unfolding x_def by (intro rounded_ge_int) simp_all
  have x1: "1 \<le> x" using assms(1) by (simp add: x_def)
  then have "(2::rat) powi 0 \<le> x" by simp
  with pos have e0: "0 \<le> exponent x" by (rule exponent_ge)
  define e where "e = exponent x"
  define u :: rat where "u = 2 powi (e - 52)"
  have u: "0 < u" unfolding u_def by simp
  have m: "max (exponent \<bar>x\<bar>) (- 1022) = e" using pos e0 by (simp add: e_def)
  have r: "rounded x = of_int (round_half_even (x / u)) * u"
    unfolding rounded_def m u_def ..
  have xle: "x \<le> 2 powi 53"
  proof -
    have "(of_int n :: rat) \<le> of_int (2 ^ 53)" using assms(2) by (simp only: of_int_le_iff)
    then show ?thesis by (simp add: x_def)
  qed
  have "rounded x \<le> x"
  proof (cases "e \<le> 52")
    case True
    define j where "j = nat (52 - e)"
    have ej: "e - 52 = - int j" using True by (simp add: j_def)
    have uj: "u = 1 / 2 ^ j" unfolding u_def ej by (simp add: power_int_minus_divide)
    have q: "x / u = of_int (n * 2 ^ j)" unfolding uj x_def by simp
    have "rounded x = of_int (n * 2 ^ j) * u" unfolding r q round_half_even_int ..
    also have "\<dots> = x" unfolding uj x_def by simp
    finally show ?thesis by simp
  next
    case False
    then have "53 \<le> e" by simp
    then have "(2::rat) powi 53 \<le> 2 powi e" by (rule power_int_increasing) simp
    also have "\<dots> \<le> x" unfolding e_def using pos by (rule exponent_bounds(1))
    finally have x53: "x = 2 powi 53" using xle by simp
    have "x < 2 powi 54" unfolding x53 by (rule power_int_strict_increasing) simp_all
    with pos have "e < 54" unfolding e_def by (rule exponent_less)
    with \<open>53 \<le> e\<close> have e53: "e = 53" by simp
    have u2: "u = 2" unfolding u_def e53 by simp
    have q: "x / u = of_int (2 ^ 52)" unfolding u2 x53 by simp
    have "rounded x = of_int (2 ^ 52) * u" unfolding r q round_half_even_int ..
    also have "\<dots> = x" unfolding u2 x53 by simp
    finally show ?thesis by simp
  qed
  with lo show ?thesis unfolding x_def by simp
qed

lemma to_double_int:
  assumes "0 \<le> n" and "n \<le> 2 ^ 53"
  shows "to_double (of_int n) = Fin (of_int n)"
proof (cases "n = 0")
  case True
  then show ?thesis by (simp add: to_double_def)
next
  case False
  with assms(1) have pos: "0 < n" by simp
  have r: "rounded (of_int n) = of_int n" using pos assms(2) by (rule rounded_int)
  have "(of_int n :: rat) \<le> of_int (2 ^ 53)" using assms(2) by (simp only: of_int_le_iff)
  also have "\<dots> = 2 powi 53" by simp
  also have "\<dots> < 2 powi 1024" by (rule power_int_strict_increasing) simp_all
  finally have lt: "\<not> 2 powi 1024 \<le> (of_int n :: rat)" by simp
  have "(0::rat) < 2 powi 1024" by (rule zero_less_power_int) simp
  moreover have "(0::rat) < of_int n" using pos by simp
  ultimately have nl: "\<not> (of_int n :: rat) \<le> - (2 powi 1024)" by linarith
  have "(of_int n :: rat) \<noteq> 0" using pos by simp
  then show ?thesis using lt nl by (simp add: to_double_rounded r)
qed

lemma round_half_even_eqI:
  assumes "\<bar>q - of_int k\<bar> < 1 / 2"
  shows "round_half_even q = k"
proof (cases "of_int k \<le> q")
  case True
  with assms have "q < of_int k + 1" by linarith
  with True have f: "\<lfloor>q\<rfloor> = k" by (simp add: floor_unique)
  from True assms have "q - of_int k < 1 / 2" by linarith
  then show ?thesis by (simp add: round_half_even_def Let_def f)
next
  case False
  with assms have lo: "of_int (k - 1) \<le> q" and hi: "q < of_int (k - 1) + 1" by simp_all
  then have f: "\<lfloor>q\<rfloor> = k - 1" by (rule floor_unique)
  from False assms have "1 / 2 < q - of_int (k - 1)" by simp
  then have a: "\<not> q - of_int (k - 1) < 1 / 2" and b: "1 / 2 < q - of_int (k - 1)" by simp_all
  show ?thesis
    unfolding round_half_even_def Let_def f using a b by (simp only: if_False if_True)
qed

lemma exponent_eqI:
  assumes "0 < x" and "2 powi e \<le> x" and "x < 2 powi (e + 1)"
  shows "exponent x = e"
proof -
  have "e \<le> exponent x" using assms(1,2) by (rule exponent_ge)
  moreover have "exponent x < e + 1" using assms(1,3) by (rule exponent_less)
  ultimately show ?thesis by simp
qed

text \<open>A certificate for one rounding: the exponent \<open>e\<close>, and the multiple \<open>k\<close> of the spacing
  that is nearer than half of it.\<close>

lemma to_double_eqI:
  assumes "0 < x" and "2 powi e \<le> x" and "x < 2 powi (e + 1)" and "- 1022 \<le> e"
    and "\<bar>x / 2 powi (e - 52) - of_int k\<bar> < 1 / 2"
    and "v = of_int k * 2 powi (e - 52)" and "v < 2 powi 1024"
  shows "to_double x = Fin v"
proof -
  have e: "exponent x = e" using assms(1-3) by (rule exponent_eqI)
  have m: "max (exponent \<bar>x\<bar>) (- 1022) = e" using assms(1,4) e by simp
  have k: "round_half_even (x / 2 powi (e - 52)) = k" using assms(5) by (rule round_half_even_eqI)
  have r: "rounded x = v" unfolding rounded_def m k assms(6) ..
  have "0 \<le> rounded x" using assms(1) by (rule rounded_nonneg)
  moreover have "(0::rat) < 2 powi 1024" by (rule zero_less_power_int) simp
  ultimately have "\<not> rounded x \<le> - (2 powi 1024)" by linarith
  moreover have "\<not> 2 powi 1024 \<le> rounded x" using assms(7) r by simp
  moreover have "x \<noteq> 0" using assms(1) by simp
  ultimately show ?thesis by (simp add: to_double_rounded r)
qed

lemma to_double_1000: "to_double 1000 = Fin 1000"
  using to_double_int [of 1000] by simp

section \<open>Properties of the token service\<close>

subsection \<open>The encoding\<close>

lemma b64_index_nth: "\<forall>n<64. b64_index (b64_alphabet ! n) = n"
  unfolding b64_alphabet_def b64_index_def
  by (simp add: All_less_Suc eval_nat_numeral Let_def)

lemma b64_index_char: "n < 64 \<Longrightarrow> b64_index (b64_char n) = n"
  using b64_index_nth by (simp add: b64_char_def)

lemma b64_char_in_alphabet: "b64_char n \<in> set b64_alphabet"
proof -
  have "length b64_alphabet = 64" by (simp add: b64_alphabet_def)
  then have "n mod 64 < length b64_alphabet" by simp
  then show ?thesis unfolding b64_char_def by (rule nth_mem)
qed

lemma b64_char_not_dot: "b64_char n \<noteq> CHR ''.''"
proof -
  have "CHR ''.'' \<notin> set b64_alphabet" by (simp add: b64_alphabet_def)
  with b64_char_in_alphabet [of n] show ?thesis by metis
qed

lemma base64url_no_dot: "CHR ''.'' \<notin> set (base64url xs)"
  by (induction xs rule: base64url.induct) (simp_all add: Let_def b64_char_not_dot [symmetric])

lemma of_char_lt_256: "(of_char c :: nat) < 256"
  by (metis of_char_mod_256 mod_less_divisor zero_less_numeral)

lemma octet_hi: fixes x y :: nat assumes "y < 256"
  shows "(x div 4) * 4 + ((x mod 4) * 16 + y div 16) div 16 = x"
proof -
  have "y div 16 < 16" using assms by simp
  then have "((x mod 4) * 16 + y div 16) div 16 = x mod 4" by simp
  then show ?thesis by simp
qed

lemma octet_mid: fixes x y z :: nat assumes "y < 256" "z < 256"
  shows "(((x mod 4) * 16 + y div 16) mod 16) * 16 + ((y mod 16) * 4 + z div 64) div 4 = y"
proof -
  have a: "y div 16 < 16" using assms by simp
  have b: "z div 64 < 4" using assms by simp
  have "((x mod 4) * 16 + y div 16) mod 16 = y div 16" using a by simp
  moreover have "((y mod 16) * 4 + z div 64) div 4 = y mod 16" using b by simp
  ultimately show ?thesis by simp
qed

lemma octet_lo: fixes y z :: nat assumes "z < 256"
  shows "(((y mod 16) * 4 + z div 64) mod 4) * 64 + z mod 64 = z"
proof -
  have b: "z div 64 < 4" using assms by simp
  have "((y mod 16) * 4 + z div 64) mod 4 = z div 64" using b by simp
  then show ?thesis by simp
qed

lemma octet_mid_last: fixes x y :: nat assumes "y < 256"
  shows "(((x mod 4) * 16 + y div 16) mod 16) * 16 + ((y mod 16) * 4) div 4 = y"
proof -
  have a: "y div 16 < 16" using assms by simp
  have "((x mod 4) * 16 + y div 16) mod 16 = y div 16" using a by simp
  then show ?thesis by simp
qed

lemma octet_hi_last: fixes x :: nat
  shows "(x div 4) * 4 + ((x mod 4) * 16) div 16 = x"
  by simp

lemma sextet_bounds:
  fixes x y z :: nat
  assumes "x < 256" "y < 256" "z < 256"
  shows "x div 4 < 64" "(x mod 4) * 16 + y div 16 < 64" "(y mod 16) * 4 + z div 64 < 64"
    "z mod 64 < 64" "(x mod 4) * 16 < 64" "(y mod 16) * 4 < 64"
proof -
  show "x div 4 < 64" using assms by simp
  have "x mod 4 < 4" "y div 16 < 16" using assms by simp_all
  then show "(x mod 4) * 16 + y div 16 < 64" by linarith
  have "y mod 16 < 16" "z div 64 < 4" using assms by simp_all
  then show "(y mod 16) * 4 + z div 64 < 64" by linarith
  show "z mod 64 < 64" by simp
  show "(x mod 4) * 16 < 64" using \<open>x mod 4 < 4\<close> by linarith
  show "(y mod 16) * 4 < 64" using \<open>y mod 16 < 16\<close> by linarith
qed

lemma unbase64url_group3:
  "unbase64url (b64_char (of_char a div 4) # b64_char ((of_char a mod 4) * 16 + of_char b div 16)
         # b64_char ((of_char b mod 16) * 4 + of_char c div 64) # b64_char (of_char c mod 64) # rest)
       = a # b # c # unbase64url rest"
proof -
  note lt = of_char_lt_256 [of a] of_char_lt_256 [of b] of_char_lt_256 [of c]
  show ?thesis
    by (simp only: unbase64url.simps Let_def b64_index_char sextet_bounds [OF lt]
        octet_hi [OF lt(2)] octet_mid [OF lt(2) lt(3)] octet_lo [OF lt(3)] char_of_char)
qed

lemma unbase64url_group2:
  "unbase64url [b64_char (of_char a div 4), b64_char ((of_char a mod 4) * 16 + of_char b div 16),
         b64_char ((of_char b mod 16) * 4)] = [a, b]"
proof -
  note lt = of_char_lt_256 [of a] of_char_lt_256 [of b] of_char_lt_256 [of b]
  show ?thesis
    by (simp only: unbase64url.simps Let_def b64_index_char sextet_bounds [OF lt]
        octet_hi [OF lt(2)] octet_mid_last [OF lt(2)] char_of_char)
qed

lemma unbase64url_group1:
  "unbase64url [b64_char (of_char a div 4), b64_char ((of_char a mod 4) * 16)] = [a]"
proof -
  note lt = of_char_lt_256 [of a] of_char_lt_256 [of a] of_char_lt_256 [of a]
  show ?thesis
    by (simp only: unbase64url.simps Let_def b64_index_char sextet_bounds [OF lt]
        octet_hi_last char_of_char)
qed

lemma unbase64url_base64url: "unbase64url (base64url xs) = xs"
proof (induction xs rule: base64url.induct)
  case (1 a b c rest)
  then have "unbase64url (base64url rest) = rest" by simp
  then show ?case
    by (simp only: base64url.simps Let_def unbase64url_group3)
next
  case (2 a b)
  show ?case by (simp only: base64url.simps Let_def unbase64url_group2)
next
  case (3 a)
  show ?case by (simp only: base64url.simps Let_def unbase64url_group1)
next
  case 4
  show ?case by simp
qed

lemma base64url_inj: "base64url xs = base64url ys \<Longrightarrow> xs = ys"
  by (metis unbase64url_base64url)

subsection \<open>Splitting and comparing\<close>

lemma split_on_not_Nil: "split_on d s \<noteq> []"
  by (induction s) (auto split: list.splits)

lemma split_on_no_sep: "d \<notin> set a \<Longrightarrow> split_on d a = [a]"
  by (induction a) auto

lemma split_on_append: "d \<notin> set a \<Longrightarrow> split_on d (a @ d # rest) = a # split_on d rest"
  by (induction a) auto

lemma split_on_three:
  assumes "d \<notin> set a" "d \<notin> set b" "d \<notin> set c"
  shows "split_on d (a @ [d] @ b @ [d] @ c) = [a, b, c]"
  using assms by (simp add: split_on_append split_on_no_sep)

lemma length_split_on: "length (split_on d s) = Suc (length (filter (\<lambda>c. c = d) s))"
  by (induction s) (auto split: list.splits simp: split_on_not_Nil)

lemma timingSafeEqual_eq: "timingSafeEqual a b = Inr (a = b)"
  by (auto simp: timingSafeEqual_def crypto_timingSafeEqual_def Let_def)

lemma HEADER_B64_no_dot: "CHR ''.'' \<notin> set HEADER_B64"
  unfolding HEADER_B64_def by (rule base64url_no_dot)

lemma hmac_digest_no_dot: "CHR ''.'' \<notin> set (hmac_digest P msg)"
  by (simp add: hmac_digest_def base64url_no_dot)

lemma verifyAuthToken_split:
  assumes "split_on CHR ''.'' t = [h, b, s]"
  shows "verifyAuthToken P now (Some t) =
           (if h \<noteq> HEADER_B64 \<or> s \<noteq> hmac_digest P (h @ ''.'' @ b) then Inr None
            else case verify_body P now b of Inl e \<Rightarrow> Inr None | Inr r \<Rightarrow> Inr r)"
proof -
  have "t \<noteq> []" using assms by auto
  then show ?thesis
    using assms by (auto simp: verifyAuthToken_def timingSafeEqual_eq)
qed

lemma verifyAuthToken_length:
  assumes "length (split_on CHR ''.'' t) \<noteq> 3"
  shows "verifyAuthToken P now (Some t) = Inr None"
  using assms by (auto simp: verifyAuthToken_def split: list.splits)

lemma signAuthToken_segments:
  "split_on CHR ''.'' (signAuthToken P now userId username ttlMs) =
     [HEADER_B64,
      base64url (JSON_stringify P (token_payload userId username
         (num_add (Fin (of_int now)) (case ttlMs of None \<Rightarrow> Fin (24 * 60 * 60 * 1000) | Some t \<Rightarrow> t)))),
      hmac_digest P (HEADER_B64 @ ''.'' @ base64url (JSON_stringify P (token_payload userId username
         (num_add (Fin (of_int now)) (case ttlMs of None \<Rightarrow> Fin (24 * 60 * 60 * 1000) | Some t \<Rightarrow> t)))))]"
  unfolding signAuthToken_def Let_def
  using split_on_three [OF HEADER_B64_no_dot base64url_no_dot hmac_digest_no_dot]
  by simp

subsection \<open>Verification\<close>

text \<open>
  C5: \<open>verifyAuthToken\<close> returns on every input, a string or \<open>null\<close>, and no exception
  leaves it (the result is never \<open>Inl\<close>, although \<open>crypto.timingSafeEqual\<close> and
  \<open>JSON.parse\<close> can throw). It returns \<open>null\<close> on an absent or empty token, on \<open>"a.b"\<close>
  and \<open>"a.b.c.d"\<close> and on any string that does not split into three segments, on a wrong
  header segment, on a signature that is not the recomputed one, and on a body that does
  not parse or parses to \<open>null\<close>.
\<close>
theorem verifyAuthToken_never_throws:
  "(\<exists>r. verifyAuthToken P now token = Inr r)
   \<and> verifyAuthToken P now None = Inr None
   \<and> verifyAuthToken P now (Some []) = Inr None
   \<and> verifyAuthToken P now (Some ''a.b'') = Inr None
   \<and> verifyAuthToken P now (Some ''a.b.c.d'') = Inr None
   \<and> (length (split_on CHR ''.'' t) \<noteq> 3 \<longrightarrow> verifyAuthToken P now (Some t) = Inr None)
   \<and> (split_on CHR ''.'' t = [h, b, s] \<and> h \<noteq> HEADER_B64 \<longrightarrow> verifyAuthToken P now (Some t) = Inr None)
   \<and> (split_on CHR ''.'' t = [h, b, s] \<and> s \<noteq> hmac_digest P (h @ ''.'' @ b)
        \<longrightarrow> verifyAuthToken P now (Some t) = Inr None)
   \<and> (split_on CHR ''.'' t = [h, b, s] \<and> JSON_parse P (base64url_to_utf8 P b) = None
        \<longrightarrow> verifyAuthToken P now (Some t) = Inr None)
   \<and> (split_on CHR ''.'' t = [h, b, s] \<and> JSON_parse P (base64url_to_utf8 P b) = Some JNull
        \<longrightarrow> verifyAuthToken P now (Some t) = Inr None)"
proof -
  have total: "\<exists>r. verifyAuthToken P now token = Inr r"
  proof (cases token)
    case None
    then show ?thesis by (simp add: verifyAuthToken_def)
  next
    case (Some u)
    show ?thesis
    proof (cases "length (split_on CHR ''.'' u) = 3")
      case True
      then obtain h b s where "split_on CHR ''.'' u = [h, b, s]"
        by (auto simp: length_Suc_conv numeral_3_eq_3)
      then show ?thesis
        using Some by (auto simp: verifyAuthToken_split split: sum.splits)
    next
      case False
      then show ?thesis using Some by (simp add: verifyAuthToken_length)
    qed
  qed
  have none: "verifyAuthToken P now None = Inr None" "verifyAuthToken P now (Some []) = Inr None"
    by (simp_all add: verifyAuthToken_def)
  have ab: "verifyAuthToken P now (Some ''a.b'') = Inr None"
    by (rule verifyAuthToken_length) simp
  have abcd: "verifyAuthToken P now (Some ''a.b.c.d'') = Inr None"
    by (rule verifyAuthToken_length) simp
  have body: "split_on CHR ''.'' t = [h, b, s] \<and> JSON_parse P (base64url_to_utf8 P b) = None
        \<longrightarrow> verifyAuthToken P now (Some t) = Inr None"
    by (auto simp: verifyAuthToken_split verify_body_def)
  have null: "split_on CHR ''.'' t = [h, b, s] \<and> JSON_parse P (base64url_to_utf8 P b) = Some JNull
        \<longrightarrow> verifyAuthToken P now (Some t) = Inr None"
    by (auto simp: verifyAuthToken_split verify_body_def)
  show ?thesis
    using total none ab abcd body null
    by (simp add: verifyAuthToken_length verifyAuthToken_split)
qed


theorem verifyAuthToken_never_throws_witness:
  "verifyAuthToken sample_platform 0 (Some ''a.b.c'') = Inr None
   \<and> verifyAuthToken sample_platform 0 (Some ''a..b.c'') = Inr None
   \<and> verifyAuthToken sample_platform 0 (Some (HEADER_B64 @ ''.b.c'')) = Inr None"
proof -
  have three: "split_on CHR ''.'' ''a.b.c'' = [''a'', ''b'', ''c'']" by simp
  have hdr: "''a'' \<noteq> HEADER_B64" by (simp add: HEADER_B64_def b64_char_def b64_alphabet_def)
  have four: "length (split_on CHR ''.'' ''a..b.c'') \<noteq> 3" by simp
  have seg: "split_on CHR ''.'' (HEADER_B64 @ ''.b.c'') = [HEADER_B64, ''b'', ''c'']"
    using split_on_three [OF HEADER_B64_no_dot, of "''b''" "''c''"] by simp
  have sig: "''c'' \<noteq> hmac_digest sample_platform (HEADER_B64 @ ''.'' @ ''b'')"
    by (simp add: hmac_digest_def sample_platform_def getSecret_def)
  from verifyAuthToken_never_throws [of sample_platform 0 None "''a.b.c''" "''a''" "''b''" "''c''"]
    three hdr
  have 1: "verifyAuthToken sample_platform 0 (Some ''a.b.c'') = Inr None" by blast
  from verifyAuthToken_never_throws [of sample_platform 0 None "''a..b.c''"] four
  have 2: "verifyAuthToken sample_platform 0 (Some ''a..b.c'') = Inr None" by blast
  from verifyAuthToken_never_throws
         [of sample_platform 0 None "HEADER_B64 @ ''.b.c''" HEADER_B64 "''b''" "''c''"] seg sig
  have 3: "verifyAuthToken sample_platform 0 (Some (HEADER_B64 @ ''.b.c'')) = Inr None" by blast
  from 1 2 3 show ?thesis by blast
qed

text \<open>
  C3, as the code has it: for a token of three segments with the fixed header and the
  matching signature, whose body parses, \<open>verifyAuthToken\<close> returns \<open>null\<close> when \<open>exp\<close> is
  not of type number (missing or of another type) and when \<open>exp\<close> is less than the current
  time; it returns the parsed claims when \<open>exp\<close> is a number that is not less than the
  current time. The test is \<open>payload.exp < Date.now()\<close>: a token whose \<open>exp\<close> equals the
  current time is still accepted, and so is one whose \<open>exp\<close> is \<open>Infinity\<close>.
\<close>
theorem verifyAuthToken_expiry:
  assumes "split_on CHR ''.'' t = [HEADER_B64, body, signature]"
    and "signature = hmac_digest P (HEADER_B64 @ ''.'' @ body)"
    and "JSON_parse P (base64url_to_utf8 P body) = Some payload"
  shows "((\<forall>e. get_prop payload ''exp'' \<noteq> Some (JNum e)) \<longrightarrow> verifyAuthToken P now (Some t) = Inr None)
       \<and> (get_prop payload ''exp'' = Some (JNum e) \<and> num_lt e (Fin (of_int now))
            \<longrightarrow> verifyAuthToken P now (Some t) = Inr None)
       \<and> (get_prop payload ''exp'' = Some (JNum e) \<and> \<not> num_lt e (Fin (of_int now))
            \<longrightarrow> verifyAuthToken P now (Some t) = Inr (Some payload))"
proof -
  have v: "verifyAuthToken P now (Some t) =
             (case verify_body P now body of Inl e \<Rightarrow> Inr None | Inr r \<Rightarrow> Inr r)"
    using assms(1,2) by (simp add: verifyAuthToken_split)
  have a: "(\<forall>e. get_prop payload ''exp'' \<noteq> Some (JNum e)) \<longrightarrow> verify_body P now body \<noteq> Inr (Some payload)
             \<and> (\<forall>r. verify_body P now body = Inr r \<longrightarrow> r = None)"
    using assms(3) by (auto simp: verify_body_def split: json.splits option.splits)
  have b: "get_prop payload ''exp'' = Some (JNum e) \<and> num_lt e (Fin (of_int now))
             \<longrightarrow> verify_body P now body = Inr None"
    using assms(3) by (cases payload) (auto simp: verify_body_def)
  have c: "get_prop payload ''exp'' = Some (JNum e) \<and> \<not> num_lt e (Fin (of_int now))
             \<longrightarrow> verify_body P now body = Inr (Some payload)"
    using assms(3) by (cases payload) (auto simp: verify_body_def)
  from a b c show ?thesis unfolding v by (auto split: sum.splits)
qed



lemma sample_stringify:
  \<open>JSON_stringify sample_platform sample_claims = ''{"userId":1,"username":"admin","exp":1000}''\<close>
  by (simp add: sample_platform_def sample_documents_def sample_not_finite_def)

lemma sample_parse:
  \<open>JSON_parse sample_platform ''{"userId":1,"username":"admin","exp":1000}'' = Some sample_claims\<close>
  by (simp add: sample_platform_def sample_documents_def sample_overflow_def)
lemma sample_decode: "base64url_to_utf8 sample_platform (base64url s) = s"
  by (simp add: sample_platform_def unbase64url_base64url)
lemma sample_roundtrip:
  "JSON_parse sample_platform
     (base64url_to_utf8 sample_platform (base64url (JSON_stringify sample_platform sample_claims)))
   = Some sample_claims"
  by (simp only: sample_decode sample_stringify sample_parse)

lemma verifyAuthToken_signed:
  "verifyAuthToken P later (Some (signAuthToken P now userId username ttlMs)) =
     (case verify_body P later
             (base64url (JSON_stringify P (token_payload userId username
                (num_add (Fin (of_int now))
                   (case ttlMs of None \<Rightarrow> Fin (24 * 60 * 60 * 1000) | Some t \<Rightarrow> t))))) of
        Inl e \<Rightarrow> Inr None
      | Inr r \<Rightarrow> Inr r)"
  by (simp add: verifyAuthToken_split [OF signAuthToken_segments])

lemma token_with_body_segments:
  "split_on CHR ''.'' (token_with_body P doc) =
     [HEADER_B64, base64url doc, hmac_digest P (HEADER_B64 @ ''.'' @ base64url doc)]"
  unfolding token_with_body_def Let_def
  using split_on_three [OF HEADER_B64_no_dot base64url_no_dot hmac_digest_no_dot]
  by simp

lemma sample_parse_body:
  "JSON_parse sample_platform (base64url_to_utf8 sample_platform (base64url doc))
     = map_of (sample_documents @ sample_overflow) doc"
  unfolding sample_decode by (simp add: sample_platform_def)

lemma sample_parse_docs:
  \<open>map_of (sample_documents @ sample_overflow) ''{"id":"A"}'' = Some (JObj [(''id'', JStr ''A'')])\<close>
  \<open>map_of (sample_documents @ sample_overflow) ''{"exp":1e999}'' = Some (JObj [(''exp'', JNum PInf)])\<close>
  by (simp_all add: sample_documents_def sample_overflow_def)

theorem verifyAuthToken_expiry_witness:
  \<open>verifyAuthToken sample_platform 1001
     (Some (signAuthToken sample_platform 0 (Fin 1) ''admin'' (Some (Fin 1000)))) = Inr None
   \<and> verifyAuthToken sample_platform 999
     (Some (signAuthToken sample_platform 0 (Fin 1) ''admin'' (Some (Fin 1000))))
       = Inr (Some sample_claims)
   \<and> verifyAuthToken sample_platform 999 (Some (token_with_body sample_platform ''{"id":"A"}''))
       = Inr None
   \<and> verifyAuthToken sample_platform 999 (Some (token_with_body sample_platform ''{"exp":1e999}''))
       = Inr (Some (JObj [(''exp'', JNum PInf)]))\<close>
proof -
  let ?t = "signAuthToken sample_platform 0 (Fin 1) ''admin'' (Some (Fin 1000))"
  let ?body = "base64url (JSON_stringify sample_platform sample_claims)"
  have seg: "split_on CHR ''.'' ?t =
      [HEADER_B64, ?body, hmac_digest sample_platform (HEADER_B64 @ ''.'' @ ?body)]"
    using signAuthToken_segments [of sample_platform 0 "Fin 1" "''admin''" "Some (Fin 1000)"]
    by (simp add: sample_claims_def to_double_1000)
  have e: "get_prop sample_claims ''exp'' = Some (JNum (Fin 1000))"
    by (simp add: sample_claims_def token_payload_def)
  have lt: "num_lt (Fin 1000) (Fin (of_int 1001))" by simp
  have ge: "\<not> num_lt (Fin 1000) (Fin (of_int 999))" by simp
  from verifyAuthToken_expiry [OF seg refl sample_roundtrip, where e="Fin 1000" and now=1001] e lt
  have 1: "verifyAuthToken sample_platform 1001 (Some ?t) = Inr None" by blast
  from verifyAuthToken_expiry [OF seg refl sample_roundtrip, where e="Fin 1000" and now=999] e ge
  have 2: "verifyAuthToken sample_platform 999 (Some ?t) = Inr (Some sample_claims)" by blast
  have pa: \<open>JSON_parse sample_platform (base64url_to_utf8 sample_platform (base64url ''{"id":"A"}''))
              = Some (JObj [(''id'', JStr ''A'')])\<close>
    by (simp only: sample_parse_body sample_parse_docs)
  have na: "\<forall>e. get_prop (JObj [(''id'', JStr ''A'')]) ''exp'' \<noteq> Some (JNum e)" by simp
  from verifyAuthToken_expiry [OF token_with_body_segments refl pa, where now=999] na
  have 3: \<open>verifyAuthToken sample_platform 999 (Some (token_with_body sample_platform ''{"id":"A"}''))
             = Inr None\<close> by blast
  have pi: \<open>JSON_parse sample_platform (base64url_to_utf8 sample_platform (base64url ''{"exp":1e999}''))
              = Some (JObj [(''exp'', JNum PInf)])\<close>
    by (simp only: sample_parse_body sample_parse_docs)
  have ei: "get_prop (JObj [(''exp'', JNum PInf)]) ''exp'' = Some (JNum PInf)" by simp
  have gi: "\<not> num_lt PInf (Fin (of_int 999))" by simp
  from verifyAuthToken_expiry [OF token_with_body_segments refl pi, where e=PInf and now=999] ei gi
  have 4: \<open>verifyAuthToken sample_platform 999 (Some (token_with_body sample_platform ''{"exp":1e999}''))
             = Inr (Some (JObj [(''exp'', JNum PInf)]))\<close> by blast
  from 1 2 3 4 show ?thesis by (simp only: simp_thms)
qed

text \<open>A token issued at time 0 with a lifetime of 1000 ms has \<open>exp = 1000\<close>; verified at
  time 1000, when \<open>exp \<le> now\<close>, it is accepted.\<close>

theorem verifyAuthToken_accepts_expiry_now:
  "verifyAuthToken sample_platform 1000
     (Some (signAuthToken sample_platform 0 (Fin 1) ''admin'' (Some (Fin 1000))))
   = Inr (Some (token_payload (Fin 1) ''admin'' (Fin 1000)))"
proof -
  have "verify_body sample_platform 1000 (base64url (JSON_stringify sample_platform sample_claims))
          = Inr (Some sample_claims)"
    unfolding verify_body_def sample_roundtrip
    by (simp add: sample_claims_def token_payload_def)
  then show ?thesis
    by (simp add: verifyAuthToken_signed sample_claims_def to_double_1000)
qed

lemma sample_stringify_not_finite:
  \<open>JSON_stringify sample_platform (token_payload (Fin 1) ''admin'' PInf)
     = ''{"userId":1,"username":"admin","exp":null}''\<close>
  by (simp add: sample_platform_def sample_documents_def sample_not_finite_def sample_claims_def
        sample_delta_A_def sample_delta_B_def token_payload_def)

lemma sample_stringify_now:
  \<open>JSON_stringify sample_platform (token_payload (Fin 1) ''admin'' (Fin 1700000000000))
     = ''{"userId":1,"username":"admin","exp":1700000000000}''\<close>
  by (simp add: sample_platform_def sample_documents_def sample_not_finite_def sample_claims_def
        sample_delta_A_def sample_delta_B_def token_payload_def)

lemma sample_parse_more:
  \<open>map_of (sample_documents @ sample_overflow) ''{"userId":1,"username":"admin","exp":null}''
     = Some (JObj [(''userId'', JNum (Fin 1)), (''username'', JStr ''admin''), (''exp'', JNull)])\<close>
  \<open>map_of (sample_documents @ sample_overflow) ''{"userId":1,"username":"admin","exp":1700000000000}''
     = Some (token_payload (Fin 1) ''admin'' (Fin 1700000000000))\<close>
  by (simp_all add: sample_documents_def sample_overflow_def)

lemma to_double_now: "to_double (27852800000000001 / 16384) = Fin 1700000000000"
  by (rule to_double_eqI [where e=40 and k=6963200000000000])
     (simp_all add: power_int_minus_divide)

text \<open>
  C4, as the code has it: for a positive integer \<open>uid\<close>, a non-empty \<open>username\<close> and a finite
  lifetime \<open>ttl > 0\<close>, the token issued at time \<open>now\<close> verifies at every time \<open>later\<close> strictly
  before \<open>now + ttl\<close>, and the claims returned are the inputs with \<open>exp\<close> the double nearest
  to \<open>now + ttl\<close>. That double is finite and not before \<open>later\<close>, and it is \<open>now + ttl\<close> itself
  when the lifetime is a whole number of milliseconds and the sum is at most \<open>2^53\<close>. The
  times are those that \<open>Date.now()\<close> gives from the epoch on, 0 to 8640000000000000. The
  hypothesis on the platform is that the claims object survives \<open>JSON.stringify\<close>, the
  base64url encoding and decoding, and \<open>JSON.parse\<close>.
\<close>
theorem sign_then_verify:
  assumes "0 < uid" and "username \<noteq> []" and "0 < ttl" and "ttl \<le> MAX_VALUE"
    and "0 \<le> now" and "now \<le> 8640000000000000"
    and "0 \<le> later" and "later \<le> 8640000000000000"
    and "of_int later < of_int now + ttl"
    and "expires = to_double (of_int now + ttl)"
    and "JSON_parse P (base64url_to_utf8 P (base64url (JSON_stringify P
           (token_payload (Fin (of_int uid)) username expires))))
         = Some (token_payload (Fin (of_int uid)) username expires)"
  shows "verifyAuthToken P later (Some (signAuthToken P now (Fin (of_int uid)) username (Some (Fin ttl))))
           = Inr (Some (token_payload (Fin (of_int uid)) username expires))
         \<and> (\<exists>v. expires = Fin v \<and> of_int later \<le> v)
         \<and> (ttl \<in> \<int> \<and> of_int now + ttl \<le> 2 ^ 53 \<longrightarrow> expires = Fin (of_int now + ttl))"
proof -
  have small: "(8640000000000000::rat) < 2 powi 970" by simp
  have "(2::rat) powi 971 = 2 powi 970 * 2"
    using pow2_split [of 970 971] by simp
  then have "MAX_VALUE + 2 powi 970 = 2 powi 1024 - 2 powi 970"
    by (simp add: MAX_VALUE_def)
  moreover have "(of_int now :: rat) \<le> 8640000000000000" using assms(6) by (simp flip: of_int_le_iff)
  ultimately have below: "of_int now + ttl < 2 powi 1024 - 2 powi 970"
    using assms(4) small by linarith
  have nonneg: "(0::rat) \<le> of_int now + ttl" using assms(3,5) by simp
  from to_double_finite [OF nonneg below] obtain v where v: "expires = Fin v"
    unfolding assms(10) by blast
  have "later \<le> 2 ^ 53" using assms(8) by simp
  from to_double_ge_int [OF assms(7) this] assms(9)
  have "to_double (of_int now + ttl) = PInf
        \<or> (\<exists>w. to_double (of_int now + ttl) = Fin w \<and> of_int later \<le> w)"
    by simp
  with v have ge: "of_int later \<le> v" unfolding assms(10) by auto
  have "verify_body P later (base64url (JSON_stringify P
           (token_payload (Fin (of_int uid)) username expires)))
        = Inr (Some (token_payload (Fin (of_int uid)) username expires))"
    unfolding verify_body_def assms(11) using ge
    by (simp add: token_payload_def v)
  then have verified: "verifyAuthToken P later
        (Some (signAuthToken P now (Fin (of_int uid)) username (Some (Fin ttl))))
      = Inr (Some (token_payload (Fin (of_int uid)) username expires))"
    by (simp add: verifyAuthToken_signed assms(10))
  have exact: "expires = Fin (of_int now + ttl)" if "ttl \<in> \<int>" and "of_int now + ttl \<le> 2 ^ 53"
  proof -
    from that(1) obtain n where n: "ttl = of_int n" by (rule Ints_cases)
    have "0 \<le> now + n" using assms(3,5) n by simp
    moreover have "now + n \<le> 2 ^ 53"
    proof -
      have "(of_int (now + n) :: rat) \<le> of_int (2 ^ 53)" using that(2) n by simp
      then show ?thesis by (simp only: of_int_le_iff)
    qed
    ultimately have "to_double (of_int (now + n)) = Fin (of_int (now + n))"
      by (rule to_double_int)
    then show ?thesis unfolding assms(10) n by simp
  qed
  from verified v ge exact show ?thesis by simp
qed

theorem sign_then_verify_witness:
  "verifyAuthToken sample_platform 999
     (Some (signAuthToken sample_platform 0 (Fin (of_int 1)) ''admin'' (Some (Fin 1000))))
   = Inr (Some (token_payload (Fin (of_int 1)) ''admin'' (Fin 1000)))
   \<and> to_double (of_int 0 + 1000) = Fin 1000"
proof -
  have e: "Fin 1000 = to_double (of_int 0 + 1000)"
    using to_double_int [of 1000] by simp
  have rt: "JSON_parse sample_platform (base64url_to_utf8 sample_platform (base64url
              (JSON_stringify sample_platform
                 (token_payload (Fin (of_int 1)) ''admin'' (Fin 1000)))))
            = Some (token_payload (Fin (of_int 1)) ''admin'' (Fin 1000))"
    using sample_roundtrip by (simp add: sample_claims_def)
  have m: "(1000::rat) \<le> MAX_VALUE"
    by (simp add: MAX_VALUE_def)
  have i: "(1000::rat) \<in> \<int>" by simp
  from sign_then_verify [OF _ _ _ m _ _ _ _ _ e rt, where later=999] i e
  show ?thesis by simp
qed

text \<open>A token issued with the lifetime \<open>Infinity\<close> carries \<open>exp: null\<close> and is rejected at
  every time; a token issued at time 1700000000000 with a lifetime of \<open>2^(-14)\<close> ms carries
  \<open>exp = 1700000000000\<close>, the time of issue, not the sum.\<close>

theorem sign_with_unbounded_lifetime_is_rejected:
  \<open>signAuthToken sample_platform 0 (Fin 1) ''admin'' (Some PInf)
     = token_with_body sample_platform ''{"userId":1,"username":"admin","exp":null}''
   \<and> verifyAuthToken sample_platform 5
       (Some (signAuthToken sample_platform 0 (Fin 1) ''admin'' (Some PInf))) = Inr None
   \<and> verifyAuthToken sample_platform 1700000000000
       (Some (signAuthToken sample_platform 1700000000000 (Fin 1) ''admin'' (Some (Fin (1 / 16384)))))
     = Inr (Some (token_payload (Fin 1) ''admin'' (Fin 1700000000000)))\<close>
proof -
  have e: "num_add (Fin (of_int 0)) PInf = PInf" by simp
  have t: \<open>signAuthToken sample_platform 0 (Fin 1) ''admin'' (Some PInf)
     = token_with_body sample_platform ''{"userId":1,"username":"admin","exp":null}''\<close>
    unfolding signAuthToken_def token_with_body_def Let_def
    by (simp only: e option.simps sample_stringify_not_finite)
  have "verify_body sample_platform 5
          (base64url (JSON_stringify sample_platform (token_payload (Fin 1) ''admin'' PInf)))
          = Inr None"
    unfolding verify_body_def sample_stringify_not_finite sample_parse_body sample_parse_more
    by simp
  then have r: "verifyAuthToken sample_platform 5
       (Some (signAuthToken sample_platform 0 (Fin 1) ''admin'' (Some PInf))) = Inr None"
    by (simp add: verifyAuthToken_signed)
  have "verify_body sample_platform 1700000000000
          (base64url (JSON_stringify sample_platform
             (token_payload (Fin 1) ''admin'' (Fin 1700000000000))))
          = Inr (Some (token_payload (Fin 1) ''admin'' (Fin 1700000000000)))"
    unfolding verify_body_def sample_stringify_now sample_parse_body sample_parse_more
    by (simp add: token_payload_def)
  then have n: "verifyAuthToken sample_platform 1700000000000
       (Some (signAuthToken sample_platform 1700000000000 (Fin 1) ''admin'' (Some (Fin (1 / 16384)))))
     = Inr (Some (token_payload (Fin 1) ''admin'' (Fin 1700000000000)))"
    by (simp add: verifyAuthToken_signed to_double_now)
  from t r n show ?thesis by (simp only: simp_thms)
qed

text \<open>
  C9: when the keyed hash is injective in the message, replacing the character at any
  position of the body segment of an issued token by a different character gives a token
  that \<open>verifyAuthToken\<close> rejects, at any time.
\<close>
theorem tampered_body_rejected:
  assumes "inj (hmac_sha256 P (getSecret P))"
    and "tok = signAuthToken P now userId username ttlMs"
    and "i < length (split_on CHR ''.'' tok ! 1)"
    and "c \<noteq> (split_on CHR ''.'' tok ! 1) ! i"
  shows "verifyAuthToken P later (Some (tamper_body i c tok)) = Inr None"
proof -
  define body where "body = base64url (JSON_stringify P (token_payload userId username
         (num_add (Fin (of_int now)) (case ttlMs of None \<Rightarrow> Fin (24 * 60 * 60 * 1000) | Some t \<Rightarrow> t))))"
  define signature where "signature = hmac_digest P (HEADER_B64 @ ''.'' @ body)"
  have seg: "split_on CHR ''.'' tok = [HEADER_B64, body, signature]"
    unfolding assms(2) body_def signature_def by (rule signAuthToken_segments)
  have i: "i < length body" and c: "c \<noteq> body ! i"
    using assms(3,4) seg by simp_all
  have tampered: "tamper_body i c tok = HEADER_B64 @ ''.'' @ body[i := c] @ ''.'' @ signature"
    by (simp add: tamper_body_def seg)
  have body_nodot: "CHR ''.'' \<notin> set body"
    unfolding body_def by (rule base64url_no_dot)
  have sig_nodot: "CHR ''.'' \<notin> set signature"
    unfolding signature_def by (rule hmac_digest_no_dot)
  show ?thesis
  proof (cases "c = CHR ''.''")
    case True
    have "c \<in> set (body[i := c])" using i by (rule set_update_memI)
    then have "filter (\<lambda>x. x = CHR ''.'') (body[i := c]) \<noteq> []"
      using True by (auto simp: filter_empty_conv)
    then have "length (filter (\<lambda>x. x = CHR ''.'') (body[i := c])) \<noteq> 0" by simp
    then have "length (split_on CHR ''.'' (tamper_body i c tok)) \<noteq> 3"
      unfolding tampered length_split_on by simp
    then show ?thesis by (rule verifyAuthToken_length)
  next
    case False
    have "set (body[i := c]) \<subseteq> insert c (set body)" by (rule set_update_subset_insert)
    with False body_nodot have nodot: "CHR ''.'' \<notin> set (body[i := c])" by auto
    have seg': "split_on CHR ''.'' (tamper_body i c tok) = [HEADER_B64, body[i := c], signature]"
      unfolding tampered using split_on_three [OF HEADER_B64_no_dot nodot sig_nodot] by simp
    have "body[i := c] \<noteq> body"
      using i c by (metis nth_list_update_eq)
    then have "HEADER_B64 @ ''.'' @ body[i := c] \<noteq> HEADER_B64 @ ''.'' @ body" by simp
    then have "hmac_sha256 P (getSecret P) (HEADER_B64 @ ''.'' @ body[i := c])
                 \<noteq> hmac_sha256 P (getSecret P) (HEADER_B64 @ ''.'' @ body)"
      using assms(1) by (metis injD)
    then have "signature \<noteq> hmac_digest P (HEADER_B64 @ ''.'' @ body[i := c])"
      unfolding signature_def hmac_digest_def by (metis base64url_inj)
    then show ?thesis by (simp add: verifyAuthToken_split [OF seg'])
  qed
qed

theorem tampered_body_rejected_witness:
  "verifyAuthToken sample_platform 5
     (Some (tamper_body 0 CHR ''x'' (signAuthToken sample_platform 0 (Fin 1) ''admin'' (Some (Fin 1000)))))
   = Inr None"
proof -
  let ?t = "signAuthToken sample_platform 0 (Fin 1) ''admin'' (Some (Fin 1000))"
  have inj: "inj (hmac_sha256 sample_platform (getSecret sample_platform))"
    by (simp add: sample_platform_def inj_def)
  have body: "split_on CHR ''.'' ?t ! 1 = base64url (JSON_stringify sample_platform sample_claims)"
    by (simp add: signAuthToken_segments sample_claims_def to_double_1000)
  have i: "0 < length (split_on CHR ''.'' ?t ! 1)"
    unfolding body sample_stringify by simp
  have c: "CHR ''x'' \<noteq> (split_on CHR ''.'' ?t ! 1) ! 0"
    unfolding body sample_stringify by (simp add: b64_char_def b64_alphabet_def)
  show ?thesis
    by (rule tampered_body_rejected [OF inj refl i c])
qed

section \<open>Properties of the router monitor\<close>

subsection \<open>Pushes that do not throw\<close>

lemma slice_last_length: "length (slice_last n xs) \<le> n"
  by (simp add: slice_last_def)

lemma slice_last_slice_last: "slice_last n (slice_last n xs @ ys) = slice_last n (xs @ ys)"
proof (cases "length xs \<le> n")
  case True
  then show ?thesis by (simp add: slice_last_def)
next
  case False
  then have "length xs - n + n = length xs" by simp
  moreover have "length ys + (length xs - n) = length xs + length ys - n" using False by simp
  ultimately show ?thesis by (simp add: slice_last_def)
qed

lemma proto_is_prototype_name: "''__proto__'' \<in> set object_prototype_names"
  by (simp add: object_prototype_names_def)

lemma obj_set_plain: "k \<notin> set object_prototype_names \<Longrightarrow> obj_set k v next = next(k \<mapsto> v)"
  using proto_is_prototype_name by (auto simp: obj_set_def)

lemma obj_set_own: "next k \<noteq> None \<Longrightarrow> obj_set k v next = next(k \<mapsto> v)"
  by (auto simp: obj_set_def)

lemma obj_get_plain:
  "k \<notin> set object_prototype_names \<Longrightarrow>
     obj_get next k = (case next k of Some v \<Rightarrow> Own v | None \<Rightarrow> Undefined)"
  by (simp add: obj_get_def)

lemma pushPoint_plain:
  assumes "router_id m \<notin> set object_prototype_names"
  shows "pushPoint ts m next = Inr (store_point ts m next)"
  using assms
  by (simp add: pushPoint_def obj_get_plain obj_set_plain store_point_def stored_points_def Let_def
           split: option.splits)

lemma pushPoint_own:
  assumes "next (router_id m) \<noteq> None"
  shows "pushPoint ts m next = Inr (store_point ts m next)"
  using assms
  by (auto simp: pushPoint_def obj_get_def obj_set_own store_point_def stored_points_def Let_def)

lemma pushPoint_inherited:
  assumes "router_id m \<in> set object_prototype_names" and "next (router_id m) = None"
  shows "pushPoint ts m next = Inl TypeError"
  using assms by (simp add: pushPoint_def obj_get_def)

lemma push_all_plain:
  assumes "\<forall>p \<in> set pushes. router_id (snd p) \<notin> set object_prototype_names"
  shows "push_all pushes h = Inr (store_all pushes h)"
  using assms
proof (induction pushes arbitrary: h)
  case Nil
  then show ?case by (simp add: push_all_def store_all_def)
next
  case (Cons p pushes)
  obtain ts m where p: "p = (ts, m)" by (cases p)
  from Cons.prems have m: "router_id m \<notin> set object_prototype_names" by (simp add: p)
  from Cons.prems have rest: "\<forall>p \<in> set pushes. router_id (snd p) \<notin> set object_prototype_names"
    by simp
  from Cons.IH [OF rest, of "store_point ts m h"] show ?case
    by (simp add: push_all_def store_all_def p pushPoint_plain [OF m])
qed

lemma for_each_pushPoint:
  "for_each (pushPoint ts) ms h = push_all (map (Pair ts) ms) h"
  by (induction ms arbitrary: h) (simp_all add: push_all_def split: sum.splits)

lemma store_point_apply:
  "store_point ts m next k =
     (if k = router_id m then Some (slice_last 60 (stored_points next k @ [history_point ts m]))
      else next k)"
  by (simp add: store_point_def)

lemma store_all_snoc: "store_all (pushes @ [(ts, m)]) next = store_point ts m (store_all pushes next)"
  by (simp add: store_all_def)

lemma store_all_apply:
  "store_all pushes next k =
     (if points_for k pushes = [] then next k
      else Some (slice_last 60 (stored_points next k @ points_for k pushes)))"
proof (induction pushes rule: rev_induct)
  case Nil
  then show ?case by (simp add: store_all_def points_for_def)
next
  case (snoc p pushes)
  obtain ts m where p: "p = (ts, m)" by (cases p)
  show ?case
  proof (cases "router_id m = k")
    case True
    then show ?thesis
      using snoc
      by (auto simp: p store_all_snoc store_point_apply points_for_def stored_points_def
                     slice_last_slice_last)
  next
    case False
    then show ?thesis
      using snoc by (simp add: p store_all_snoc store_point_apply points_for_def)
  qed
qed

lemma dom_store_all: "dom (store_all pushes next) = dom next \<union> router_id ` snd ` set pushes"
proof (induction pushes rule: rev_induct)
  case Nil
  then show ?case by (simp add: store_all_def)
next
  case (snoc p pushes)
  obtain ts m where p: "p = (ts, m)" by (cases p)
  have "dom (store_point ts m (store_all pushes next)) = insert (router_id m) (dom (store_all pushes next))"
    by (simp add: store_point_def)
  with snoc show ?case by (auto simp: p store_all_snoc)
qed

lemma delete_keys_apply: "delete_keys ids m k = (if k \<in> set ids then None else m k)"
  unfolding delete_keys_def by (induction ids arbitrary: m) auto

lemma dom_delete_keys: "dom (delete_keys ids m) = dom m - set ids"
  by (auto simp: delete_keys_apply dom_def)

lemma points_for_all:
  assumes "\<forall>p \<in> set pushes. router_id (snd p) = r"
  shows "points_for r pushes = map (\<lambda>(ts, m). history_point ts m) pushes"
proof -
  have "filter (\<lambda>(ts, metric). router_id metric = r) pushes = pushes"
    using assms by (auto simp: filter_id_conv)
  then show ?thesis by (simp add: points_for_def)
qed

text \<open>For a router whose identifier is not a property name of \<open>Object.prototype\<close>, a
  sequence of pushes leaves the last 60 points of the old history followed by the new
  points, in the order of the pushes: seventy pushes on a router without history leave the
  last 60 of them.\<close>

lemma pushes_keep_last_sixty:
  assumes "\<forall>p \<in> set pushes. router_id (snd p) = r" and "pushes \<noteq> []"
    and "r \<notin> set object_prototype_names"
  shows "\<exists>h'. push_all pushes h = Inr h'
           \<and> h' r = Some (slice_last 60 (stored_points h r @ map (\<lambda>(ts, m). history_point ts m) pushes))
           \<and> length (stored_points h' r) \<le> 60"
proof -
  have "\<forall>p \<in> set pushes. router_id (snd p) \<notin> set object_prototype_names"
    using assms(1,3) by auto
  then have "push_all pushes h = Inr (store_all pushes h)" by (rule push_all_plain)
  moreover have "store_all pushes h r =
      Some (slice_last 60 (stored_points h r @ map (\<lambda>(ts, m). history_point ts m) pushes))"
    using assms(1,2) by (simp add: store_all_apply points_for_all)
  ultimately show ?thesis by (simp add: stored_points_def slice_last_length)
qed

lemma seventy_pushes_A:
  "push_all (seventy_pushes ''A'') Map.empty
     = Inr [''A'' \<mapsto> drop 10 (points_for ''A'' (seventy_pushes ''A''))]"
proof -
  have a: "\<forall>p \<in> set (seventy_pushes ''A''). router_id (snd p) = ''A''"
    by (auto simp: seventy_pushes_def sample_metric_def)
  then have "\<forall>p \<in> set (seventy_pushes ''A''). router_id (snd p) \<notin> set object_prototype_names"
    by (simp add: object_prototype_names_def)
  then have p: "push_all (seventy_pushes ''A'') Map.empty = Inr (store_all (seventy_pushes ''A'') Map.empty)"
    by (rule push_all_plain)
  have n: "seventy_pushes ''A'' \<noteq> []" "length (seventy_pushes ''A'') = 70"
    by (simp_all add: seventy_pushes_def)
  have "store_all (seventy_pushes ''A'') Map.empty k
          = [''A'' \<mapsto> drop 10 (points_for ''A'' (seventy_pushes ''A''))] k" for k
  proof (cases "k = ''A''")
    case True
    have "points_for ''A'' (seventy_pushes ''A'') \<noteq> []"
      using n(1) by (simp add: points_for_all [OF a])
    moreover have "length (points_for ''A'' (seventy_pushes ''A'')) = 70"
      using n(2) by (simp add: points_for_all [OF a])
    ultimately show ?thesis
      unfolding True by (simp add: store_all_apply stored_points_def slice_last_def)
  next
    case False
    then have "filter (\<lambda>(ts, metric). router_id metric = k) (seventy_pushes ''A'') = []"
      using a by (auto simp: filter_empty_conv)
    then have "points_for k (seventy_pushes ''A'') = []" by (simp add: points_for_def)
    with False show ?thesis by (simp add: store_all_apply)
  qed
  then have "store_all (seventy_pushes ''A'') Map.empty
               = [''A'' \<mapsto> drop 10 (points_for ''A'' (seventy_pushes ''A''))]"
    by (rule ext)
  with p show ?thesis by simp
qed

text \<open>
  C6 at a router called \<open>constructor\<close>: the history has no own property of that name, the
  read \<open>next["constructor"]\<close> finds the function \<open>Object\<close> of the prototype, and the spread of
  it throws. The first of seventy pushes ends the sequence, and no point is kept. The same
  seventy pushes for a router called \<open>A\<close> leave the last 60 points.
\<close>

theorem push_for_constructor_throws:
  "pushPoint 0 (sample_metric ''constructor'') Map.empty = Inl TypeError
   \<and> push_all (seventy_pushes ''constructor'') Map.empty = Inl TypeError
   \<and> length (seventy_pushes ''constructor'') = 70
   \<and> push_all (seventy_pushes ''A'') Map.empty
       = Inr [''A'' \<mapsto> drop 10 (points_for ''A'' (seventy_pushes ''A''))]"
proof -
  have c: "pushPoint ts (sample_metric ''constructor'') Map.empty = Inl TypeError" for ts
    by (rule pushPoint_inherited) (simp_all add: sample_metric_def object_prototype_names_def)
  have "seventy_pushes ''constructor''
          = (0, sample_metric ''constructor'') # map (\<lambda>i. (int i, sample_metric ''constructor'')) [1..<70]"
    by (simp add: seventy_pushes_def upt_conv_Cons)
  then have "push_all (seventy_pushes ''constructor'') Map.empty = Inl TypeError"
    by (simp add: push_all_def c)
  moreover have "length (seventy_pushes ''constructor'') = 70"
    by (simp add: seventy_pushes_def)
  ultimately show ?thesis using c seventy_pushes_A by simp
qed

subsection \<open>Full snapshots\<close>

lemmas item_defs = normalizeRouterPayload_def extractRouterItems_def normalizeRouterItem_def
  pickString_def pickIdentifier_def pickNumber_def non_empty_def trim_def white_space_def
  asRecord_def opt_prop_def normalizeInterfaces_def Let_def

lemma full_metrics_plain:
  assumes "\<forall>m \<in> set ms. router_id m \<notin> set object_prototype_names"
  shows "full_metrics ms = fold (\<lambda>metric t. t(router_id metric \<mapsto> metric)) ms Map.empty"
proof -
  have "fold (\<lambda>metric t. obj_set (router_id metric) metric t) ms t0
          = fold (\<lambda>metric t. t(router_id metric \<mapsto> metric)) ms t0" for t0
    using assms by (induction ms arbitrary: t0) (simp_all add: obj_set_plain)
  then show ?thesis by (simp add: full_metrics_def)
qed

lemma fold_put_apply:
  "fold (\<lambda>metric t. t(router_id metric \<mapsto> metric)) ms t0 k =
     (if filter (\<lambda>x. router_id x = k) ms = [] then t0 k
      else Some (last (filter (\<lambda>x. router_id x = k) ms)))"
  by (induction ms rule: rev_induct) simp_all

lemma full_metrics_apply:
  assumes "\<forall>m \<in> set ms. router_id m \<notin> set object_prototype_names"
  shows "full_metrics ms k =
     (if filter (\<lambda>x. router_id x = k) ms = [] then None
      else Some (last (filter (\<lambda>x. router_id x = k) ms)))"
  by (simp add: full_metrics_plain [OF assms] fold_put_apply)

lemma dom_full_metrics:
  assumes "\<forall>m \<in> set ms. router_id m \<notin> set object_prototype_names"
  shows "dom (full_metrics ms) = router_id ` set ms"
  by (auto simp: full_metrics_apply [OF assms] dom_def filter_empty_conv split: if_splits)

lemma points_for_Pair:
  "points_for k (map (Pair ts) ms) = map (history_point ts) (filter (\<lambda>x. router_id x = k) ms)"
  by (induction ms) (simp_all add: points_for_def)

lemma full_history_plain:
  assumes "\<forall>m \<in> set ms. router_id m \<notin> set object_prototype_names"
  shows "full_history ts ms h = Inr (store_all (map (Pair ts) ms) h |` (router_id ` set ms))"
proof -
  have "\<forall>p \<in> set (map (Pair ts) ms). router_id (snd p) \<notin> set object_prototype_names"
    using assms by simp
  then have "push_all (map (Pair ts) ms) h = Inr (store_all (map (Pair ts) ms) h)"
    by (rule push_all_plain)
  then show ?thesis by (simp add: full_history_def for_each_pushPoint)
qed

lemma snapshot_history_apply:
  assumes "m \<in> set ms"
  shows "(store_all (map (Pair ts) ms) h |` (router_id ` set ms)) (router_id m) =
           Some (slice_last 60 (stored_points h (router_id m)
                   @ map (history_point ts) (filter (\<lambda>x. router_id x = router_id m) ms)))"
proof -
  have "filter (\<lambda>x. router_id x = router_id m) ms \<noteq> []"
    using assms by (auto simp: filter_empty_conv)
  then show ?thesis
    using assms by (simp add: store_all_apply points_for_Pair)
qed

lemma dom_snapshot_history:
  "dom (store_all (map (Pair ts) ms) h |` (router_id ` set ms)) = router_id ` set ms"
  by (auto simp: dom_store_all image_image)

lemma handle_payload_full:
  assumes "interpretMonitoringPayload payload = Some (Full routers)"
  shows "handle_payload P ts payload st =
           (let normalized = map (\<lambda>metric. metric\<lparr>lastUpdatedAt := ts\<rparr>)
                               (normalizeRouterPayload P ts (Some (JArr routers)))
            in if normalized = [] then Inr st
               else (case full_history ts normalized (history st) of
                       Inl e \<Rightarrow> Inl e
                     | Inr h \<Rightarrow> Inr \<lparr>routerMetrics = full_metrics normalized, history = h\<rparr>))"
  using assms by (simp add: handle_payload_def Let_def)

text \<open>
  C2, as the code has it: for a message interpreted as a full snapshot whose items
  normalize to at least one router, none of them with the name of a property of
  \<open>Object.prototype\<close> as identifier, the metric table afterwards has exactly the identifiers
  of the normalized routers, each with the last metric of the snapshot that carries it, so
  every router absent from the snapshot is gone; the history has the same identifiers, and
  for each of them the last 60 of its old points followed by one new point for every metric
  of the snapshot with that identifier. A snapshot whose items normalize to no router leaves
  the state as it was.
\<close>

theorem full_snapshot_replaces_table:
  assumes "interpretMonitoringPayload payload = Some (Full routers)"
    and "normalized = map (\<lambda>metric. metric\<lparr>lastUpdatedAt := ts\<rparr>)
                        (normalizeRouterPayload P ts (Some (JArr routers)))"
  shows "(normalized \<noteq> [] \<and> (\<forall>m \<in> set normalized. router_id m \<notin> set object_prototype_names) \<longrightarrow>
            (\<exists>st'. handle_payload P ts payload st = Inr st'
               \<and> dom (routerMetrics st') = router_id ` set normalized
               \<and> (\<forall>m \<in> set normalized.
                     routerMetrics st' (router_id m)
                       = Some (last (filter (\<lambda>x. router_id x = router_id m) normalized)))
               \<and> dom (history st') = router_id ` set normalized
               \<and> (\<forall>m \<in> set normalized.
                     history st' (router_id m)
                       = Some (slice_last 60 (stored_points (history st) (router_id m)
                                 @ map (history_point ts)
                                     (filter (\<lambda>x. router_id x = router_id m) normalized))))))
       \<and> (normalized = [] \<longrightarrow> handle_payload P ts payload st = Inr st)"
proof (cases "normalized = []")
  case True
  then show ?thesis
    using assms(2) by (simp add: handle_payload_full [OF assms(1)])
next
  case False
  have hp: "handle_payload P ts payload st =
             (if normalized = [] then Inr st
              else (case full_history ts normalized (history st) of
                      Inl e \<Rightarrow> Inl e
                    | Inr h \<Rightarrow> Inr \<lparr>routerMetrics = full_metrics normalized, history = h\<rparr>))"
    unfolding assms(2) using handle_payload_full [OF assms(1), of P ts st]
    by (simp only: Let_def)
  show ?thesis
  proof (cases "\<forall>m \<in> set normalized. router_id m \<notin> set object_prototype_names")
    case plain: True
    define st' where "st' = \<lparr>routerMetrics = full_metrics normalized,
        history = store_all (map (Pair ts) normalized) (history st) |` (router_id ` set normalized)\<rparr>"
    have h: "handle_payload P ts payload st = Inr st'"
      unfolding hp full_history_plain [OF plain] st'_def using False by simp
    have a: "dom (routerMetrics st') = router_id ` set normalized"
      by (simp add: st'_def dom_full_metrics [OF plain])
    have b: "\<forall>m \<in> set normalized.
          routerMetrics st' (router_id m)
            = Some (last (filter (\<lambda>x. router_id x = router_id m) normalized))"
      by (auto simp: st'_def full_metrics_apply [OF plain] filter_empty_conv)
    have c: "dom (history st') = router_id ` set normalized"
      unfolding st'_def by (simp only: monitor_state.simps dom_snapshot_history)
    have d: "\<forall>m \<in> set normalized.
          history st' (router_id m)
            = Some (slice_last 60 (stored_points (history st) (router_id m)
                      @ map (history_point ts) (filter (\<lambda>x. router_id x = router_id m) normalized)))"
      unfolding st'_def monitor_state.simps using snapshot_history_apply by blast
    from h a b c d False show ?thesis by blast
  next
    case False
    with \<open>normalized \<noteq> []\<close> show ?thesis by blast
  qed
qed

lemma normalize_AB:
  "normalizeRouterPayload sample_platform ts (Some snapshot_AB) =
     [bare_metric ''A'' ''Router 1'' ts, bare_metric ''B'' ''Router 2'' ts]"
  by (simp add: snapshot_AB_def item_defs bare_metric_def)

lemma normalize_BC:
  "normalizeRouterPayload sample_platform ts (Some snapshot_BC) =
     [bare_metric ''B'' ''Router 1'' ts, bare_metric ''C'' ''Router 2'' ts]"
  by (simp add: snapshot_BC_def item_defs bare_metric_def)

lemma bare_metric_simps:
  "router_id (bare_metric ident name ts) = ident"
  "(bare_metric ident name ts)\<lparr>lastUpdatedAt := ts'\<rparr> = bare_metric ident name ts'"
  "history_point ts' (bare_metric ident name ts) = bare_point ts'"
  by (simp_all add: bare_metric_def bare_point_def history_point_def
        calculatePeakTrafficFromInterfaces_def)

lemma after_snapshot_AB:
  "handle_payload sample_platform 1 snapshot_AB initial_state = Inr state_AB"
proof -
  have i: "interpretMonitoringPayload snapshot_AB
          = Some (Full [JObj [(''id'', JStr ''A'')], JObj [(''id'', JStr ''B'')]])"
    by (simp add: snapshot_AB_def interpretMonitoringPayload_def)
  have n: "map (\<lambda>metric. metric\<lparr>lastUpdatedAt := 1\<rparr>)
             (normalizeRouterPayload sample_platform 1
                (Some (JArr [JObj [(''id'', JStr ''A'')], JObj [(''id'', JStr ''B'')]])))
           = [bare_metric ''A'' ''Router 1'' 1, bare_metric ''B'' ''Router 2'' 1]"
    using normalize_AB [of 1] by (simp add: snapshot_AB_def bare_metric_simps)
  have t: "full_metrics [bare_metric ''A'' ''Router 1'' 1, bare_metric ''B'' ''Router 2'' 1]
             = [''A'' \<mapsto> bare_metric ''A'' ''Router 1'' 1, ''B'' \<mapsto> bare_metric ''B'' ''Router 2'' 1]"
    by (simp add: full_metrics_def obj_set_def bare_metric_simps)
  have "[''A'' \<mapsto> [bare_point 1], ''B'' \<mapsto> [bare_point 1]] |` {''A'', ''B''}
          = [''A'' \<mapsto> [bare_point 1], ''B'' \<mapsto> [bare_point 1]]"
    by (rule ext) (simp add: restrict_map_def)
  then have h: "full_history 1 [bare_metric ''A'' ''Router 1'' 1, bare_metric ''B'' ''Router 2'' 1] Map.empty
             = Inr [''A'' \<mapsto> [bare_point 1], ''B'' \<mapsto> [bare_point 1]]"
    by (simp add: full_history_def pushPoint_def obj_get_def obj_set_def object_prototype_names_def
          bare_metric_simps slice_last_def Let_def)
  show ?thesis
    unfolding handle_payload_full [OF i] n Let_def
    by (simp add: initial_state_def h t state_AB_def)
qed

theorem full_snapshot_replaces_table_witness:
  "\<exists>st'. and_then (handle_payload sample_platform 1 snapshot_AB initial_state)
            (handle_payload sample_platform 2 snapshot_BC) = Inr st'
     \<and> dom (routerMetrics st') = {''B'', ''C''}
     \<and> dom (history st') = {''B'', ''C''}"
proof -
  define normalized where "normalized = map (\<lambda>metric. metric\<lparr>lastUpdatedAt := 2\<rparr>)
             (normalizeRouterPayload sample_platform 2
                (Some (JArr [JObj [(''id'', JStr ''B'')], JObj [(''id'', JStr ''C'')]])))"
  have i: "interpretMonitoringPayload snapshot_BC
          = Some (Full [JObj [(''id'', JStr ''B'')], JObj [(''id'', JStr ''C'')]])"
    by (simp add: snapshot_BC_def interpretMonitoringPayload_def)
  have l: "normalized = [bare_metric ''B'' ''Router 1'' 2, bare_metric ''C'' ''Router 2'' 2]"
    unfolding normalized_def using normalize_BC [of 2] by (simp add: snapshot_BC_def bare_metric_simps)
  have n: "normalized \<noteq> []" by (simp add: l)
  have ids: "router_id ` set normalized = {''B'', ''C''}"
    by (simp add: l bare_metric_simps)
  have plain: "\<forall>m \<in> set normalized. router_id m \<notin> set object_prototype_names"
    by (simp add: l bare_metric_simps object_prototype_names_def)
  from full_snapshot_replaces_table [OF i normalized_def, where st=state_AB] n plain
  obtain st' where "handle_payload sample_platform 2 snapshot_BC state_AB = Inr st'"
    and "dom (routerMetrics st') = router_id ` set normalized"
    and "dom (history st') = router_id ` set normalized"
    by blast
  then show ?thesis
    unfolding ids by (auto simp: and_then_def after_snapshot_AB)
qed

text \<open>The frame \<open>[5]\<close> is a full snapshot, none of its items is a router, and the routers
  \<open>A\<close> and \<open>B\<close> of the table are still there afterwards.\<close>

theorem full_snapshot_without_routers_keeps_table:
  "interpretMonitoringPayload (JArr [JNum (Fin 5)]) = Some (Full [JNum (Fin 5)])
   \<and> normalizeRouterPayload sample_platform 2 (Some (JArr [JNum (Fin 5)])) = []
   \<and> handle_payload sample_platform 1 snapshot_AB initial_state = Inr state_AB
   \<and> handle_payload sample_platform 2 (JArr [JNum (Fin 5)]) state_AB = Inr state_AB
   \<and> routerMetrics state_AB ''A'' = Some (bare_metric ''A'' ''Router 1'' 1)"
proof -
  have i: "interpretMonitoringPayload (JArr [JNum (Fin 5)]) = Some (Full [JNum (Fin 5)])"
    by (simp add: interpretMonitoringPayload_def)
  have n: "normalizeRouterPayload sample_platform 2 (Some (JArr [JNum (Fin 5)])) = []"
    by (simp add: item_defs)
  have "handle_payload sample_platform 2 (JArr [JNum (Fin 5)]) state_AB = Inr state_AB"
    by (simp add: handle_payload_full [OF i] n)
  moreover have "routerMetrics state_AB ''A'' = Some (bare_metric ''A'' ''Router 1'' 1)"
    by (simp add: state_AB_def)
  ultimately show ?thesis using i n after_snapshot_AB by simp
qed

subsection \<open>Identifiers that are property names of the prototype\<close>

lemma normalize_constructor:
  "normalizeRouterPayload sample_platform ts (Some snapshot_constructor)
     = [bare_metric ''constructor'' ''Router 1'' ts]"
  by (simp add: snapshot_constructor_def item_defs bare_metric_def)

lemma normalize_proto:
  "normalizeRouterPayload sample_platform ts (Some snapshot_proto)
     = [bare_metric ''__proto__'' ''Router 1'' ts]"
  by (simp add: snapshot_proto_def item_defs bare_metric_def)

text \<open>
  C10 at a snapshot of one router called \<open>constructor\<close>, from the empty state: the update of
  the metric table gives a table with that router, and the update of the history throws
  \<open>TypeError\<close> at the read of \<open>next["constructor"]\<close>, so the entry of the table comes without
  a history push and the render fails. For a router called \<open>__proto__\<close> the assignment in the
  table update replaces the prototype and adds no entry, and the history update throws all
  the same.
\<close>

theorem history_update_throws_for_constructor:
  "normalizeRouterPayload sample_platform 1 (Some snapshot_constructor)
     = [bare_metric ''constructor'' ''Router 1'' 1]
   \<and> full_metrics [bare_metric ''constructor'' ''Router 1'' 1]
       = [''constructor'' \<mapsto> bare_metric ''constructor'' ''Router 1'' 1]
   \<and> full_history 1 [bare_metric ''constructor'' ''Router 1'' 1] Map.empty = Inl TypeError
   \<and> handle_payload sample_platform 1 snapshot_constructor initial_state = Inl TypeError
   \<and> normalizeRouterPayload sample_platform 1 (Some snapshot_proto)
       = [bare_metric ''__proto__'' ''Router 1'' 1]
   \<and> full_metrics [bare_metric ''__proto__'' ''Router 1'' 1] = Map.empty
   \<and> full_history 1 [bare_metric ''__proto__'' ''Router 1'' 1] Map.empty = Inl TypeError
   \<and> handle_payload sample_platform 1 snapshot_proto initial_state = Inl TypeError"
proof -
  have t: "full_metrics [bare_metric ''constructor'' ''Router 1'' 1]
       = [''constructor'' \<mapsto> bare_metric ''constructor'' ''Router 1'' 1]"
    by (simp add: full_metrics_def obj_set_def bare_metric_simps)
  have h: "full_history 1 [bare_metric ''constructor'' ''Router 1'' 1] Map.empty = Inl TypeError"
    by (simp add: full_history_def pushPoint_def obj_get_def object_prototype_names_def
          bare_metric_simps)
  have i: "interpretMonitoringPayload snapshot_constructor
             = Some (Full [JObj [(''id'', JStr ''constructor'')]])"
    by (simp add: snapshot_constructor_def interpretMonitoringPayload_def)
  have n: "map (\<lambda>metric. metric\<lparr>lastUpdatedAt := 1\<rparr>)
             (normalizeRouterPayload sample_platform 1 (Some (JArr [JObj [(''id'', JStr ''constructor'')]])))
           = [bare_metric ''constructor'' ''Router 1'' 1]"
    using normalize_constructor [of 1] by (simp add: snapshot_constructor_def bare_metric_simps)
  have c: "handle_payload sample_platform 1 snapshot_constructor initial_state = Inl TypeError"
    unfolding handle_payload_full [OF i] n Let_def by (simp add: initial_state_def h)
  have t': "full_metrics [bare_metric ''__proto__'' ''Router 1'' 1] = Map.empty"
    by (simp add: full_metrics_def obj_set_def bare_metric_simps)
  have h': "full_history 1 [bare_metric ''__proto__'' ''Router 1'' 1] Map.empty = Inl TypeError"
    by (simp add: full_history_def pushPoint_def obj_get_def object_prototype_names_def
          bare_metric_simps)
  have i': "interpretMonitoringPayload snapshot_proto
             = Some (Full [JObj [(''id'', JStr ''__proto__'')]])"
    by (simp add: snapshot_proto_def interpretMonitoringPayload_def)
  have n': "map (\<lambda>metric. metric\<lparr>lastUpdatedAt := 1\<rparr>)
             (normalizeRouterPayload sample_platform 1 (Some (JArr [JObj [(''id'', JStr ''__proto__'')]])))
           = [bare_metric ''__proto__'' ''Router 1'' 1]"
    using normalize_proto [of 1] by (simp add: snapshot_proto_def bare_metric_simps)
  have p: "handle_payload sample_platform 1 snapshot_proto initial_state = Inl TypeError"
    unfolding handle_payload_full [OF i'] n' Let_def by (simp add: initial_state_def h')
  from t h c t' h' p normalize_constructor [of 1] normalize_proto [of 1]
  show ?thesis by (simp only: simp_thms)
qed

subsection \<open>Peak traffic\<close>

lemma num_max_eq: "a \<noteq> NaN \<Longrightarrow> b \<noteq> NaN \<Longrightarrow> num_max a b = (if num_lt a b then b else a)"
  by (cases a; cases b) simp_all

lemma num_max_not_NaN: "a \<noteq> NaN \<Longrightarrow> b \<noteq> NaN \<Longrightarrow> num_max a b \<noteq> NaN"
  by (simp add: num_max_eq)




lemma num_lt_NInf: "\<not> num_lt a NInf"
  by (cases a) simp_all























subsection \<open>Delta updates\<close>

lemma handle_payload_delta:
  assumes "interpretMonitoringPayload payload = Some (Delta added updated removed)"
  shows "handle_payload P ts payload st =
          (let normalizedAdded = map (\<lambda>metric. metric\<lparr>lastUpdatedAt := ts\<rparr>)
                                   (normalizeRouterPayload P ts (Some (JArr added)));
               normalizedUpdated = map (\<lambda>metric. metric\<lparr>lastUpdatedAt := ts\<rparr>)
                                     (normalizeRouterPayload P ts (Some (JArr updated)));
               removalIds = extractRouterIdentifiers P removed
           in if normalizedAdded = [] \<and> normalizedUpdated = [] \<and> removalIds = []
              then Inr st
              else (case delta_history ts normalizedAdded normalizedUpdated removalIds (history st) of
                      Inl e \<Rightarrow> Inl e
                    | Inr h \<Rightarrow>
                        Inr \<lparr>routerMetrics =
                               delta_metrics ts normalizedAdded normalizedUpdated removalIds
                                 (routerMetrics st),
                             history = h\<rparr>))"
  using assms by (simp add: handle_payload_def Let_def)

lemma interpret_update_A:
  "interpretMonitoringPayload update_A
     = Some (Delta [] [JObj [(''id'', JStr ''A''), (''cpu'', JNum (Fin 70))]] [])"
  by (simp add: update_A_def interpretMonitoringPayload_def toLowerCase_def asRecord_def
       opt_prop_def array_items_def)

lemma normalize_snapshot_A:
  "normalizeRouterPayload sample_platform ts (Some snapshot_A) =
     [(sample_metric ''A'')\<lparr>lastUpdatedAt := ts\<rparr>]"
  by (simp add: snapshot_A_def item_defs sample_metric_def)

lemma normalize_update_A:
  "normalizeRouterPayload sample_platform ts
      (Some (JArr [JObj [(''id'', JStr ''A''), (''cpu'', JNum (Fin 70))]])) =
     [(bare_metric ''A'' ''Router 1'' ts)\<lparr>cpu := Some (Fin 70)\<rparr>]"
  by (simp add: item_defs bare_metric_def)

lemma after_snapshot_A:
  "handle_payload sample_platform 1 snapshot_A initial_state = Inr state_A"
proof -
  have i: "interpretMonitoringPayload snapshot_A
          = Some (Full [JObj [(''id'', JStr ''A''), (''cpu'', JNum (Fin 50)), (''memory'', JNum (Fin 60))]])"
    by (simp add: snapshot_A_def interpretMonitoringPayload_def)
  have n: "map (\<lambda>metric. metric\<lparr>lastUpdatedAt := 1\<rparr>)
             (normalizeRouterPayload sample_platform 1
                (Some (JArr [JObj [(''id'', JStr ''A''), (''cpu'', JNum (Fin 50)), (''memory'', JNum (Fin 60))]])))
           = [(sample_metric ''A'')\<lparr>lastUpdatedAt := 1\<rparr>]"
    using normalize_snapshot_A [of 1] by (simp add: snapshot_A_def)
  have t: "full_metrics [(sample_metric ''A'')\<lparr>lastUpdatedAt := 1\<rparr>]
             = [''A'' \<mapsto> (sample_metric ''A'')\<lparr>lastUpdatedAt := 1\<rparr>]"
    by (simp add: full_metrics_def obj_set_def sample_metric_def)
  have r: "[''A'' \<mapsto> ps] |` {''A''} = [''A'' \<mapsto> ps]" for ps :: "RouterHistoryPoint list"
    by (rule ext) (simp add: restrict_map_def)
  have h: "full_history 1 [(sample_metric ''A'')\<lparr>lastUpdatedAt := 1\<rparr>] Map.empty
             = Inr [''A'' \<mapsto> [(bare_point 1)\<lparr>point_cpu := Some (Fin 50), point_memory := Some (Fin 60)\<rparr>]]"
    by (simp add: full_history_def pushPoint_def obj_get_def obj_set_def object_prototype_names_def
          sample_metric_def slice_last_def Let_def r history_point_def bare_point_def
          calculatePeakTrafficFromInterfaces_def)
  show ?thesis
    unfolding handle_payload_full [OF i] n Let_def
    by (simp add: initial_state_def h t state_A_def)
qed

text \<open>
  C1 at the input of the specification's own example: the router \<open>A\<close> has \<open>cpu = 50\<close> and
  \<open>memory = 60\<close>; after the delta \<open>updated: [{id: "A", cpu: 70}]\<close> its entry has \<open>cpu = 70\<close>
  and \<open>memory = null\<close>. The normalized update carries every key, so the spread over the
  previous entry keeps none of its values.
\<close>

theorem delta_update_erases_memory:
  "handle_payload sample_platform 1 snapshot_A initial_state = Inr state_A
   \<and> map_option cpu (routerMetrics state_A ''A'') = Some (Some (Fin 50))
   \<and> map_option memory (routerMetrics state_A ''A'') = Some (Some (Fin 60))
   \<and> handle_payload sample_platform 2 update_A state_A = Inr state_A_updated
   \<and> map_option cpu (routerMetrics state_A_updated ''A'') = Some (Some (Fin 70))
   \<and> map_option memory (routerMetrics state_A_updated ''A'') = Some None"
proof -
  have before: "map_option cpu (routerMetrics state_A ''A'') = Some (Some (Fin 50))"
    "map_option memory (routerMetrics state_A ''A'') = Some (Some (Fin 60))"
    by (simp_all add: state_A_def sample_metric_def)
  have after: "map_option cpu (routerMetrics state_A_updated ''A'') = Some (Some (Fin 70))"
    "map_option memory (routerMetrics state_A_updated ''A'') = Some None"
    by (simp_all add: state_A_updated_def bare_metric_def)
  have n: "map (\<lambda>metric. metric\<lparr>lastUpdatedAt := 2\<rparr>)
             (normalizeRouterPayload sample_platform 2
                (Some (JArr [JObj [(''id'', JStr ''A''), (''cpu'', JNum (Fin 70))]])))
           = [(bare_metric ''A'' ''Router 1'' 2)\<lparr>cpu := Some (Fin 70)\<rparr>]"
    by (simp add: normalize_update_A bare_metric_def)
  have e: "map (\<lambda>metric. metric\<lparr>lastUpdatedAt := 2\<rparr>)
             (normalizeRouterPayload sample_platform 2 (Some (JArr []))) = []"
    by (simp add: item_defs)
  have x: "extractRouterIdentifiers sample_platform [] = []"
    by (simp add: extractRouterIdentifiers_def)
  have t: "delta_metrics 2 [] [(bare_metric ''A'' ''Router 1'' 2)\<lparr>cpu := Some (Fin 70)\<rparr>] []
             (routerMetrics state_A) = routerMetrics state_A_updated"
    by (simp add: delta_metrics_def delete_keys_def obj_get_def obj_set_def spread_def
          state_A_def state_A_updated_def bare_metric_def sample_metric_def)
  have h: "delta_history 2 [] [(bare_metric ''A'' ''Router 1'' 2)\<lparr>cpu := Some (Fin 70)\<rparr>] []
             (history state_A) = Inr (history state_A_updated)"
    by (simp add: delta_history_def delete_keys_def pushPoint_def obj_get_def obj_set_def
          state_A_def state_A_updated_def bare_metric_def bare_point_def history_point_def
          calculatePeakTrafficFromInterfaces_def slice_last_def Let_def)
  have "handle_payload sample_platform 2 update_A state_A = Inr state_A_updated"
    unfolding handle_payload_delta [OF interpret_update_A] n e x Let_def t h
    by (simp add: state_A_updated_def)
  with before after after_snapshot_A show ?thesis by (simp only: simp_thms)
qed

subsection \<open>Frames of several lines\<close>

text \<open>
  C7, as the code has it: for a frame whose trimmed text is not JSON and has more than one
  non-empty line, each line is parsed on its own, a line that does not parse standing for
  itself as a string, and \<open>null\<close> and empty strings are left out. One segment left is the
  payload; none left makes the trimmed text the payload, which the handler discards; several
  left make one array of them the payload, and the handler reads an array as a single full
  snapshot whose items are the segments: no segment is classified on its own.
\<close>

theorem multiline_frame_payload:
  assumes "trim frame \<noteq> []"
    and "JSON_parse P (trim frame) = None"
    and "segments = filter (\<lambda>segment. segment \<noteq> []) (map trim (split_lines (trim frame)))"
    and "length segments > 1"
    and "parsed = filter (\<lambda>segment. segment \<noteq> JNull \<and> segment \<noteq> JStr [])
                    (map (\<lambda>segment. case JSON_parse P segment of
                                       Some v \<Rightarrow> v
                                     | None \<Rightarrow> JStr segment) segments)"
  shows "(parsed = [v] \<longrightarrow> normalizeTextPayload P frame = v)
       \<and> (length parsed > 1 \<longrightarrow>
            normalizeTextPayload P frame = JArr parsed
          \<and> interpretMonitoringPayload (JArr parsed) = Some (Full parsed)
          \<and> onmessage P ts frame st = handle_payload P ts (JArr parsed) st)
       \<and> (parsed = [] \<longrightarrow>
            normalizeTextPayload P frame = JStr (trim frame)
          \<and> onmessage P ts frame st = Inr st)"
proof -
  have eq: "normalizeTextPayload P frame =
              (if length segments > 1 \<and> length parsed = 1 then hd parsed
               else if length segments > 1 \<and> length parsed > 1 then JArr parsed
               else JStr (trim frame))"
    unfolding normalizeTextPayload_def Let_def assms(5) assms(3)
    by (simp only: assms(1) assms(2) if_False option.simps)
  have one: "normalizeTextPayload P frame = v" if "parsed = [v]"
    unfolding eq using that assms(4) by simp
  have many: "normalizeTextPayload P frame = JArr parsed" if "length parsed > 1"
    unfolding eq using that assms(4) by simp
  have none: "normalizeTextPayload P frame = JStr (trim frame)" if "parsed = []"
    unfolding eq using that assms(4) by simp
  have full: "interpretMonitoringPayload (JArr parsed) = Some (Full parsed)"
    by (simp add: interpretMonitoringPayload_def)
  have str: "handle_payload P ts (JStr (trim frame)) st = Inr st"
    by (simp add: handle_payload_def interpretMonitoringPayload_def)
  from one many none full str show ?thesis
    by (simp add: onmessage_def)
qed

lemma two_deltas_trim: "trim two_deltas_frame = two_deltas_frame"
  by (simp add: two_deltas_frame_def trim_def white_space_def)

lemma two_deltas_lines:
  \<open>split_lines two_deltas_frame =
     [''{"type":"delta","routers":{"removed":["A"]}}'',
      ''{"type":"delta","routers":{"removed":["B"]}}'']\<close>
  by (simp add: two_deltas_frame_def)


lemma two_deltas_segments:
  \<open>filter (\<lambda>segment. segment \<noteq> []) (map trim (split_lines (trim two_deltas_frame))) =
     [''{"type":"delta","routers":{"removed":["A"]}}'',
      ''{"type":"delta","routers":{"removed":["B"]}}'']\<close>
  unfolding two_deltas_trim two_deltas_lines by (simp add: trim_def white_space_def)

lemma two_deltas_parse:
  \<open>JSON_parse sample_platform two_deltas_frame = None\<close>
  \<open>JSON_parse sample_platform ''{"type":"delta","routers":{"removed":["A"]}}'' = Some sample_delta_A\<close>
  \<open>JSON_parse sample_platform ''{"type":"delta","routers":{"removed":["B"]}}'' = Some sample_delta_B\<close>
  by (simp_all add: sample_platform_def sample_documents_def sample_overflow_def two_deltas_frame_def)

lemma two_deltas_parsed:
  "filter (\<lambda>segment. segment \<noteq> JNull \<and> segment \<noteq> JStr [])
     (map (\<lambda>segment. case JSON_parse sample_platform segment of
                        Some v \<Rightarrow> v
                      | None \<Rightarrow> JStr segment)
        (filter (\<lambda>segment. segment \<noteq> []) (map trim (split_lines (trim two_deltas_frame)))))
   = [sample_delta_A, sample_delta_B]"
  unfolding two_deltas_segments
  by (simp add: two_deltas_parse sample_delta_A_def sample_delta_B_def)

lemma two_deltas_nonempty: "trim two_deltas_frame \<noteq> []"
  unfolding two_deltas_trim by (simp add: two_deltas_frame_def)

lemma frame_trims:
  "trim null_and_router_frame = null_and_router_frame"
  "trim two_nulls_frame = two_nulls_frame"
  by (simp_all add: null_and_router_frame_def two_nulls_frame_def trim_def white_space_def)

lemma frame_segments:
  \<open>filter (\<lambda>segment. segment \<noteq> []) (map trim (split_lines (trim null_and_router_frame)))
     = [''null'', ''{"id":"A"}'']\<close>
  \<open>filter (\<lambda>segment. segment \<noteq> []) (map trim (split_lines (trim two_nulls_frame)))
     = [''null'', ''null'']\<close>
  unfolding frame_trims
  by (simp_all add: null_and_router_frame_def two_nulls_frame_def trim_def white_space_def)

lemma frame_parse:
  \<open>JSON_parse sample_platform null_and_router_frame = None\<close>
  \<open>JSON_parse sample_platform two_nulls_frame = None\<close>
  \<open>JSON_parse sample_platform ''null'' = Some JNull\<close>
  \<open>JSON_parse sample_platform ''{"id":"A"}'' = Some (JObj [(''id'', JStr ''A'')])\<close>
  by (simp_all add: sample_platform_def sample_documents_def sample_overflow_def
        null_and_router_frame_def two_nulls_frame_def)

lemma frame_parsed:
  "filter (\<lambda>segment. segment \<noteq> JNull \<and> segment \<noteq> JStr [])
     (map (\<lambda>segment. case JSON_parse sample_platform segment of
                        Some v \<Rightarrow> v
                      | None \<Rightarrow> JStr segment)
        (filter (\<lambda>segment. segment \<noteq> []) (map trim (split_lines (trim null_and_router_frame)))))
   = [JObj [(''id'', JStr ''A'')]]"
  "filter (\<lambda>segment. segment \<noteq> JNull \<and> segment \<noteq> JStr [])
     (map (\<lambda>segment. case JSON_parse sample_platform segment of
                        Some v \<Rightarrow> v
                      | None \<Rightarrow> JStr segment)
        (filter (\<lambda>segment. segment \<noteq> []) (map trim (split_lines (trim two_nulls_frame)))))
   = []"
  unfolding frame_segments by (simp_all add: frame_parse)

theorem multiline_frame_payload_witness:
  "normalizeTextPayload sample_platform two_deltas_frame = JArr [sample_delta_A, sample_delta_B]
   \<and> interpretMonitoringPayload (JArr [sample_delta_A, sample_delta_B])
       = Some (Full [sample_delta_A, sample_delta_B])
   \<and> normalizeTextPayload sample_platform null_and_router_frame = JObj [(''id'', JStr ''A'')]
   \<and> normalizeTextPayload sample_platform two_nulls_frame = JStr two_nulls_frame"
proof -
  have p: "JSON_parse sample_platform (trim two_deltas_frame) = None"
    unfolding two_deltas_trim by (rule two_deltas_parse(1))
  have l: "length (filter (\<lambda>segment. segment \<noteq> [])
             (map trim (split_lines (trim two_deltas_frame)))) > 1"
    unfolding two_deltas_segments by simp
  from multiline_frame_payload [OF two_deltas_nonempty p refl l refl]
  have 1: "normalizeTextPayload sample_platform two_deltas_frame = JArr [sample_delta_A, sample_delta_B]
         \<and> interpretMonitoringPayload (JArr [sample_delta_A, sample_delta_B])
             = Some (Full [sample_delta_A, sample_delta_B])"
    unfolding two_deltas_parsed by simp
  have n1: "trim null_and_router_frame \<noteq> []"
    unfolding frame_trims by (simp add: null_and_router_frame_def)
  have p1: "JSON_parse sample_platform (trim null_and_router_frame) = None"
    unfolding frame_trims by (rule frame_parse(1))
  have l1: "length (filter (\<lambda>segment. segment \<noteq> [])
             (map trim (split_lines (trim null_and_router_frame)))) > 1"
    unfolding frame_segments by simp
  from multiline_frame_payload [OF n1 p1 refl l1 refl, where v="JObj [(''id'', JStr ''A'')]"]
  have 2: "normalizeTextPayload sample_platform null_and_router_frame = JObj [(''id'', JStr ''A'')]"
    unfolding frame_parsed by simp
  have n2: "trim two_nulls_frame \<noteq> []"
    unfolding frame_trims by (simp add: two_nulls_frame_def)
  have p2: "JSON_parse sample_platform (trim two_nulls_frame) = None"
    unfolding frame_trims by (rule frame_parse(2))
  have l2: "length (filter (\<lambda>segment. segment \<noteq> [])
             (map trim (split_lines (trim two_nulls_frame)))) > 1"
    unfolding frame_segments by simp
  from multiline_frame_payload [OF n2 p2 refl l2 refl]
  have "normalizeTextPayload sample_platform two_nulls_frame = JStr (trim two_nulls_frame)"
    unfolding frame_parsed by simp
  then have 3: "normalizeTextPayload sample_platform two_nulls_frame = JStr two_nulls_frame"
    unfolding frame_trims .
  from 1 2 3 show ?thesis by (simp only: simp_thms)
qed

lemma two_deltas_payload:
  "normalizeTextPayload sample_platform two_deltas_frame = JArr [sample_delta_A, sample_delta_B]"
proof -
  have p: "JSON_parse sample_platform (trim two_deltas_frame) = None"
    unfolding two_deltas_trim by (rule two_deltas_parse(1))
  show ?thesis
    unfolding normalizeTextPayload_def Let_def two_deltas_parsed
    using two_deltas_nonempty p by (simp add: two_deltas_segments)
qed

lemma interpret_sample_deltas:
  "interpretMonitoringPayload sample_delta_A = Some (Delta [] [] [JStr ''A''])"
  "interpretMonitoringPayload sample_delta_B = Some (Delta [] [] [JStr ''B''])"
  by (simp_all add: sample_delta_A_def sample_delta_B_def interpretMonitoringPayload_def
        toLowerCase_def asRecord_def opt_prop_def array_items_def)

lemma normalize_two_deltas:
  "normalizeRouterPayload sample_platform ts (Some (JArr [sample_delta_A, sample_delta_B])) =
     [bare_metric ''Router 1'' ''Router 1'' ts, bare_metric ''Router 2'' ''Router 2'' ts]"
  by (simp add: sample_delta_A_def sample_delta_B_def item_defs bare_metric_def)

lemma removal_ids:
  "extractRouterIdentifiers sample_platform [JStr ''A''] = [''A'']"
  "extractRouterIdentifiers sample_platform [JStr ''B''] = [''B'']"
proof -
  have t: "trim ''A'' = ''A''" "trim ''B'' = ''B''"
    by (simp_all add: trim_def white_space_def)
  show "extractRouterIdentifiers sample_platform [JStr ''A''] = [''A'']"
    by (simp add: extractRouterIdentifiers_def set_add_def t)
  show "extractRouterIdentifiers sample_platform [JStr ''B''] = [''B'']"
    by (simp add: extractRouterIdentifiers_def set_add_def t)
qed

lemma remove_only:
  assumes "interpretMonitoringPayload payload = Some (Delta [] [] [JStr r])"
    and "extractRouterIdentifiers sample_platform [JStr r] = [r]"
  shows "handle_payload sample_platform ts payload st =
           Inr \<lparr>routerMetrics = (routerMetrics st)(r := None), history = (history st)(r := None)\<rparr>"
proof -
  have e: "map (\<lambda>metric. metric\<lparr>lastUpdatedAt := ts\<rparr>)
             (normalizeRouterPayload sample_platform ts (Some (JArr []))) = []"
    by (simp add: item_defs)
  show ?thesis
    unfolding handle_payload_delta [OF assms(1)] e assms(2) Let_def
    by (simp add: delta_metrics_def delta_history_def delete_keys_def)
qed

text \<open>Two lines, each a delta that removes one router of the table \<open>{A, B}\<close>: handled in
  turn they would empty the table; the handler replaces the table by two routers made of
  the two messages.\<close>

theorem multiline_frame_is_one_snapshot:
  "interpretMonitoringPayload sample_delta_A = Some (Delta [] [] [JStr ''A''])
   \<and> interpretMonitoringPayload sample_delta_B = Some (Delta [] [] [JStr ''B''])
   \<and> handle_payload sample_platform 1 snapshot_AB initial_state = Inr state_AB
   \<and> process_each_in_turn sample_platform 2 [sample_delta_A, sample_delta_B] state_AB
       = Inr initial_state
   \<and> onmessage sample_platform 2 two_deltas_frame state_AB = Inr state_two_routers
   \<and> dom (routerMetrics initial_state) = {}
   \<and> dom (routerMetrics state_two_routers) = {''Router 1'', ''Router 2''}"
proof -
  have a: "handle_payload sample_platform 2 sample_delta_A state_AB =
             Inr \<lparr>routerMetrics = (routerMetrics state_AB)(''A'' := None),
                  history = (history state_AB)(''A'' := None)\<rparr>"
    by (rule remove_only [OF interpret_sample_deltas(1) removal_ids(1)])
  have b: "handle_payload sample_platform 2 sample_delta_B
             \<lparr>routerMetrics = (routerMetrics state_AB)(''A'' := None),
              history = (history state_AB)(''A'' := None)\<rparr> =
             Inr \<lparr>routerMetrics = ((routerMetrics state_AB)(''A'' := None))(''B'' := None),
                  history = ((history state_AB)(''A'' := None))(''B'' := None)\<rparr>"
    using remove_only [OF interpret_sample_deltas(2) removal_ids(2), where ts=2
        and st="\<lparr>routerMetrics = (routerMetrics state_AB)(''A'' := None),
                  history = (history state_AB)(''A'' := None)\<rparr>"]
    by simp
  have m: "((routerMetrics state_AB)(''A'' := None))(''B'' := None) = Map.empty"
    by (rule ext) (simp add: state_AB_def)
  have h: "((history state_AB)(''A'' := None))(''B'' := None) = Map.empty"
    by (rule ext) (simp add: state_AB_def)
  have turn: "process_each_in_turn sample_platform 2 [sample_delta_A, sample_delta_B] state_AB
                = Inr initial_state"
    unfolding process_each_in_turn_def
    by (simp only: for_each.simps a b m h sum.case initial_state_def)
  have full: "interpretMonitoringPayload (JArr [sample_delta_A, sample_delta_B])
                = Some (Full [sample_delta_A, sample_delta_B])"
    by (simp add: interpretMonitoringPayload_def)
  have n: "map (\<lambda>metric. metric\<lparr>lastUpdatedAt := 2\<rparr>)
             (normalizeRouterPayload sample_platform 2 (Some (JArr [sample_delta_A, sample_delta_B])))
           = [bare_metric ''Router 1'' ''Router 1'' 2, bare_metric ''Router 2'' ''Router 2'' 2]"
    by (simp add: normalize_two_deltas bare_metric_simps)
  have t: "full_metrics [bare_metric ''Router 1'' ''Router 1'' 2, bare_metric ''Router 2'' ''Router 2'' 2]
             = routerMetrics state_two_routers"
    by (simp add: full_metrics_def obj_set_def bare_metric_simps state_two_routers_def)
  have plain: "\<forall>m \<in> set [bare_metric ''Router 1'' ''Router 1'' 2, bare_metric ''Router 2'' ''Router 2'' 2].
                 router_id m \<notin> set object_prototype_names"
    by (simp add: bare_metric_simps object_prototype_names_def)
  have "(store_all (map (Pair 2) [bare_metric ''Router 1'' ''Router 1'' 2,
                                  bare_metric ''Router 2'' ''Router 2'' 2]) (history state_AB)
           |` (router_id ` set [bare_metric ''Router 1'' ''Router 1'' 2,
                                bare_metric ''Router 2'' ''Router 2'' 2])) k
          = history state_two_routers k" for k
    by (simp add: store_all_def store_point_def stored_points_def bare_metric_simps state_AB_def
          state_two_routers_def slice_last_def restrict_map_def)
  then have "full_history 2 [bare_metric ''Router 1'' ''Router 1'' 2,
                              bare_metric ''Router 2'' ''Router 2'' 2] (history state_AB)
               = Inr (history state_two_routers)"
    unfolding full_history_plain [OF plain] by (simp only: sum.inject) (rule ext)
  then have "handle_payload sample_platform 2 (JArr [sample_delta_A, sample_delta_B]) state_AB
               = Inr state_two_routers"
    unfolding handle_payload_full [OF full] n Let_def t
    by (simp add: state_two_routers_def)
  then have whole: "onmessage sample_platform 2 two_deltas_frame state_AB = Inr state_two_routers"
    by (simp add: onmessage_def two_deltas_payload)
  have d: "dom (routerMetrics initial_state) = {}"
    "dom (routerMetrics state_two_routers) = {''Router 1'', ''Router 2''}"
    by (auto simp: initial_state_def state_two_routers_def)
  from turn whole interpret_sample_deltas after_snapshot_AB d show ?thesis
    by (simp only: simp_thms)
qed

end
